theory Spec2Isabelle
  imports Main
begin

section \<open>JavaScript strings\<close>

text \<open>
  A JavaScript string is a sequence of UTF-16 code units; \<open>length\<close>, \<open>slice\<close>,
  \<open>split\<close> and \<open>trim\<close> all work on code units. A code unit is a natural number below
  \<open>0x10000\<close>; \<open>ascii\<close> turns a literal of the source into its code units.
\<close>

type_synonym jsstring = "nat list"

definition ascii :: "string \<Rightarrow> jsstring" where
  "ascii s = map of_char s"

text \<open>
  The white space and line terminators of ECMAScript: what \<open>String.prototype.trim\<close>
  removes and what \<open>\s\<close> matches in a regular expression.
\<close>

definition is_space :: "nat \<Rightarrow> bool" where
  "is_space c \<longleftrightarrow>
     (9 \<le> c \<and> c \<le> 13) \<or> c = 32 \<or> c = 160 \<or> c = 5760 \<or>
     (8192 \<le> c \<and> c \<le> 8202) \<or> c = 8232 \<or> c = 8233 \<or> c = 8239 \<or>
     c = 8287 \<or> c = 12288 \<or> c = 65279"

text \<open>\<open>s.trim()\<close>\<close>

definition trim :: "jsstring \<Rightarrow> jsstring" where
  "trim s = rev (dropWhile is_space (rev (dropWhile is_space s)))"

text \<open>
  \<open>s.replace(/\s+/g, ' ')\<close>: every maximal run of white space becomes one space.
  The flag tells whether the previous code unit was white space.
\<close>

fun replace_ws_runs :: "bool \<Rightarrow> jsstring \<Rightarrow> jsstring" where
  "replace_ws_runs inrun [] = []"
| "replace_ws_runs inrun (c # cs) =
     (if is_space c then
        (if inrun then replace_ws_runs True cs else 32 # replace_ws_runs True cs)
      else c # replace_ws_runs False cs)"

text \<open>\<open>lines.join(sep)\<close>\<close>

fun join :: "jsstring \<Rightarrow> jsstring list \<Rightarrow> jsstring" where
  "join sep [] = []"
| "join sep [x] = x"
| "join sep (x # y # ys) = x @ sep @ join sep (y # ys)"

text \<open>
  \<open>xs.slice(-n)\<close>: the last \<open>n\<close> elements, or all of them when there are fewer
  (the subtraction on \<open>nat\<close> stops at 0, which is the index JavaScript clamps to).
\<close>

definition slice_last :: "nat \<Rightarrow> 'a list \<Rightarrow> 'a list" where
  "slice_last n xs = drop (length xs - n) xs"

text \<open>\<open>s.startsWith(p)\<close>\<close>

definition startsWith :: "jsstring \<Rightarrow> jsstring \<Rightarrow> bool" where
  "startsWith s p \<longleftrightarrow> take (length p) s = p"

text \<open>
  \<open>s.split('\n')\<close>: the pieces between line feeds; the result is never empty (the
  last case of the inner \<open>case\<close> cannot occur).
\<close>

fun split_lines :: "jsstring \<Rightarrow> jsstring list" where
  "split_lines [] = [[]]"
| "split_lines (c # cs) =
     (if c = 10 then [] # split_lines cs
      else case split_lines cs of
        l # ls \<Rightarrow> (c # l) # ls
      | [] \<Rightarrow> [[c]])"

section \<open>Decoding UTF-8\<close>

text \<open>
  The UTF-8 decoder of the Encoding standard, which \<open>TextDecoder\<close> runs. Its state
  outlives a call of \<open>decode(value, {stream: true})\<close>, so a character whose bytes are
  split over two chunks is completed by the next call. A malformed sequence yields
  U+FFFD (65533). A byte is a natural number below 256.
\<close>

record utf8_decoder =
  code_point :: nat
  bytes_seen :: nat
  bytes_needed :: nat
  lower_boundary :: nat
  upper_boundary :: nat
  bom_seen :: bool

definition utf8_init :: utf8_decoder where
  "utf8_init = \<lparr>code_point = 0, bytes_seen = 0, bytes_needed = 0,
     lower_boundary = 128, upper_boundary = 191, bom_seen = False\<rparr>"

definition utf8_reset :: "utf8_decoder \<Rightarrow> utf8_decoder" where
  "utf8_reset d = d\<lparr>code_point := 0, bytes_seen := 0, bytes_needed := 0,
     lower_boundary := 128, upper_boundary := 191\<rparr>"

text \<open>A byte read when no sequence is open.\<close>

definition utf8_lead :: "utf8_decoder \<Rightarrow> nat \<Rightarrow> utf8_decoder \<times> nat list" where
  "utf8_lead d b =
     (if b \<le> 127 then (d, [b])
      else if 194 \<le> b \<and> b \<le> 223 then
        (d\<lparr>bytes_needed := 1, code_point := b mod 32\<rparr>, [])
      else if 224 \<le> b \<and> b \<le> 239 then
        (d\<lparr>lower_boundary := (if b = 224 then 160 else lower_boundary d),
           upper_boundary := (if b = 237 then 159 else upper_boundary d),
           bytes_needed := 2, code_point := b mod 16\<rparr>, [])
      else if 240 \<le> b \<and> b \<le> 244 then
        (d\<lparr>lower_boundary := (if b = 240 then 144 else lower_boundary d),
           upper_boundary := (if b = 244 then 143 else upper_boundary d),
           bytes_needed := 3, code_point := b mod 8\<rparr>, [])
      else (d, [65533]))"

text \<open>
  One byte: the new state and the code points it completes. A byte outside the expected
  range closes the open sequence with U+FFFD and is read again as a first byte.
\<close>

definition utf8_byte :: "utf8_decoder \<Rightarrow> nat \<Rightarrow> utf8_decoder \<times> nat list" where
  "utf8_byte d b =
     (if bytes_needed d = 0 then utf8_lead d b
      else if b < lower_boundary d \<or> upper_boundary d < b then
        (let (d', out) = utf8_lead (utf8_reset d) b in (d', 65533 # out))
      else
        (let cp = code_point d * 64 + b mod 64;
             seen = bytes_seen d + 1
         in if seen \<noteq> bytes_needed d then
              (d\<lparr>lower_boundary := 128, upper_boundary := 191,
                 code_point := cp, bytes_seen := seen\<rparr>, [])
            else (utf8_reset d, [cp])))"

fun utf8_bytes :: "utf8_decoder \<Rightarrow> nat list \<Rightarrow> utf8_decoder \<times> nat list" where
  "utf8_bytes d [] = (d, [])"
| "utf8_bytes d (b # bs) =
     (let (d1, out1) = utf8_byte d b; (d2, out2) = utf8_bytes d1 bs
      in (d2, out1 @ out2))"

text \<open>A code point as UTF-16 code units: itself, or a surrogate pair.\<close>

definition utf16 :: "nat \<Rightarrow> jsstring" where
  "utf16 cp =
     (if cp < 65536 then [cp]
      else [55296 + (cp - 65536) div 1024, 56320 + (cp - 65536) mod 1024])"

text \<open>\<open>TextDecoder\<close> drops a byte order mark (U+FEFF) at the start of the stream.\<close>

definition strip_bom :: "utf8_decoder \<Rightarrow> nat list \<Rightarrow> utf8_decoder \<times> nat list" where
  "strip_bom d cps =
     (if bom_seen d then (d, cps)
      else case cps of
        [] \<Rightarrow> (d, [])
      | c # cs \<Rightarrow> (d\<lparr>bom_seen := True\<rparr>, if c = 65279 then cs else c # cs))"

text \<open>
  \<open>decoder.decode(value, {stream: true})\<close>: the bytes of an unfinished sequence stay
  in the state and nothing is emitted for them.
\<close>

definition decode :: "utf8_decoder \<Rightarrow> nat list \<Rightarrow> utf8_decoder \<times> jsstring" where
  "decode d bytes =
     (let (d1, cps) = utf8_bytes d bytes; (d2, cps') = strip_bom d1 cps
      in (d2, concat (map utf16 cps')))"

text \<open>
  \<open>buffer.toString('utf-8')\<close>: the whole input at once; a sequence left open at the end
  yields U+FFFD, and a byte order mark is kept.
\<close>

definition Buffer_toString :: "nat list \<Rightarrow> jsstring" where
  "Buffer_toString bytes =
     (let (d, cps) = utf8_bytes utf8_init bytes
      in concat (map utf16 (cps @ (if bytes_needed d = 0 then [] else [65533]))))"

section \<open>JSON\<close>

text \<open>
  The values \<open>JSON.parse\<close> returns. A number keeps the text of its literal; an object
  keeps its members in the order read, duplicates included.
\<close>

datatype json = JNull | JBool bool | JNumber jsstring | JString jsstring
  | JArray "json list" | JObject "(jsstring \<times> json) list"

text \<open>
  \<open>v[k]\<close> for a property name \<open>k\<close> that no prototype defines: \<open>None\<close> is
  \<open>undefined\<close>. Of two members with one key the later is the value.
\<close>

definition get_prop :: "json \<Rightarrow> jsstring \<Rightarrow> json option" where
  "get_prop v k = (case v of JObject kvs \<Rightarrow> map_of (rev kvs) k | _ \<Rightarrow> None)"

text \<open>\<open>v[0]\<close>: an array's first element, a string's first code unit, an object's \<open>"0"\<close>.\<close>

definition index0 :: "json \<Rightarrow> json option" where
  "index0 v =
     (case v of
        JArray xs \<Rightarrow> (case xs of [] \<Rightarrow> None | x # _ \<Rightarrow> Some x)
      | JString s \<Rightarrow> (case s of [] \<Rightarrow> None | c # _ \<Rightarrow> Some (JString [c]))
      | JObject kvs \<Rightarrow> map_of (rev kvs) (ascii ''0'')
      | _ \<Rightarrow> None)"

text \<open>\<open>v?.f\<close>: \<open>undefined\<close> when \<open>v\<close> is \<open>undefined\<close> or \<open>null\<close>.\<close>

definition opt_chain :: "json option \<Rightarrow> (json \<Rightarrow> json option) \<Rightarrow> json option" where
  "opt_chain v f = (case v of None \<Rightarrow> None | Some JNull \<Rightarrow> None | Some x \<Rightarrow> f x)"

text \<open>\<open>Array.isArray(v)\<close>\<close>

definition isArray :: "json option \<Rightarrow> bool" where
  "isArray v = (case v of Some (JArray _) \<Rightarrow> True | _ \<Rightarrow> False)"

subsection \<open>Parsing\<close>

text \<open>
  \<open>JSON.parse\<close> as a recursive-descent parser of the JSON grammar. The recursive
  functions take a bound on the number of nested calls and tell apart the text that is
  not JSON (\<open>SyntaxError\<close>) from the bound being reached (\<open>OutOfFuel\<close>), so that a
  result \<open>SyntaxError\<close> or \<open>Parsed\<close> never depends on the bound.
\<close>

datatype 'a parsed = OutOfFuel | SyntaxError | Parsed 'a jsstring

definition is_json_ws :: "nat \<Rightarrow> bool" where
  "is_json_ws c \<longleftrightarrow> c = 32 \<or> c = 9 \<or> c = 10 \<or> c = 13"

definition skip_ws :: "jsstring \<Rightarrow> jsstring" where
  "skip_ws cs = dropWhile is_json_ws cs"

definition is_digit :: "nat \<Rightarrow> bool" where
  "is_digit c \<longleftrightarrow> 48 \<le> c \<and> c \<le> 57"

definition is_hex :: "nat \<Rightarrow> bool" where
  "is_hex c \<longleftrightarrow>
     (48 \<le> c \<and> c \<le> 57) \<or> (65 \<le> c \<and> c \<le> 70) \<or> (97 \<le> c \<and> c \<le> 102)"

definition hex_val :: "nat \<Rightarrow> nat" where
  "hex_val c = (if c \<le> 57 then c - 48 else if c \<le> 70 then c - 55 else c - 87)"

definition hex4 :: "jsstring \<Rightarrow> nat option" where
  "hex4 cs =
     (if length cs = 4 \<and> list_all is_hex cs
      then Some (foldl (\<lambda>a c. a * 16 + hex_val c) 0 cs) else None)"

definition unescape :: "nat \<Rightarrow> nat option" where
  "unescape e =
     (if e = 34 \<or> e = 92 \<or> e = 47 then Some e
      else if e = 98 then Some 8
      else if e = 102 then Some 12
      else if e = 110 then Some 10
      else if e = 114 then Some 13
      else if e = 116 then Some 9
      else None)"

text \<open>
  The code units of a string literal after its opening quote, and the rest of the text;
  \<open>None\<close> when the literal is malformed or not closed.
\<close>

fun parse_chars :: "jsstring \<Rightarrow> jsstring \<Rightarrow> (jsstring \<times> jsstring) option" where
  "parse_chars acc [] = None"
| "parse_chars acc (c # cs) =
     (if c = 34 then Some (rev acc, cs)
      else if c = 92 then
        (case cs of
           [] \<Rightarrow> None
         | e # r \<Rightarrow>
             if e = 117 then
               (case hex4 (take 4 r) of
                  None \<Rightarrow> None
                | Some u \<Rightarrow> parse_chars (u # acc) (drop 4 r))
             else
               (case unescape e of
                  None \<Rightarrow> None
                | Some u \<Rightarrow> parse_chars (u # acc) r))
      else if c < 32 then None
      else parse_chars (c # acc) cs)"

definition parse_digits :: "jsstring \<Rightarrow> (jsstring \<times> jsstring) option" where
  "parse_digits cs =
     (let ds = takeWhile is_digit cs
      in if ds = [] then None else Some (ds, dropWhile is_digit cs))"

text \<open>
  A number literal: sign, integer part (a leading 0 stands alone), fraction, exponent.
  A fraction or exponent without digits is not part of the literal and is left unread,
  which makes the enclosing text malformed.
\<close>

definition parse_fraction :: "jsstring \<Rightarrow> jsstring \<times> jsstring" where
  "parse_fraction cs =
     (if startsWith cs [46] then
        (case parse_digits (tl cs) of
           None \<Rightarrow> ([], cs)
         | Some (ds, r) \<Rightarrow> (46 # ds, r))
      else ([], cs))"

definition parse_exponent :: "jsstring \<Rightarrow> jsstring \<times> jsstring" where
  "parse_exponent cs =
     (if startsWith cs [101] \<or> startsWith cs [69] then
        (let signed = startsWith (tl cs) [43] \<or> startsWith (tl cs) [45];
             sg = (if signed then [hd (tl cs)] else []);
             r = (if signed then tl (tl cs) else tl cs)
         in case parse_digits r of
           None \<Rightarrow> ([], cs)
         | Some (ds, r') \<Rightarrow> (hd cs # sg @ ds, r'))
      else ([], cs))"

definition parse_number :: "jsstring \<Rightarrow> (jsstring \<times> jsstring) option" where
  "parse_number cs =
     (let sign = (if startsWith cs [45] then [45] else []);
          r0 = (if startsWith cs [45] then tl cs else cs)
      in case parse_digits r0 of
        None \<Rightarrow> None
      | Some (ip, r1) \<Rightarrow>
          if hd ip = 48 \<and> length ip > 1 then Some (sign @ [48], tl r0)
          else
            (let (fp, r2) = parse_fraction r1; (ep, r3) = parse_exponent r2
             in Some (sign @ ip @ fp @ ep, r3)))"

text \<open>A value that is neither an object nor an array.\<close>

definition parse_scalar :: "jsstring \<Rightarrow> json parsed" where
  "parse_scalar cs =
     (if startsWith cs [34] then
        (case parse_chars [] (tl cs) of
           None \<Rightarrow> SyntaxError
         | Some (s, r) \<Rightarrow> Parsed (JString s) r)
      else if startsWith cs (ascii ''true'') then Parsed (JBool True) (drop 4 cs)
      else if startsWith cs (ascii ''false'') then Parsed (JBool False) (drop 5 cs)
      else if startsWith cs (ascii ''null'') then Parsed JNull (drop 4 cs)
      else
        (case parse_number cs of
           None \<Rightarrow> SyntaxError
         | Some (lit, r) \<Rightarrow> Parsed (JNumber lit) r))"

fun parse_value :: "nat \<Rightarrow> jsstring \<Rightarrow> json parsed"
  and parse_elements :: "nat \<Rightarrow> json list \<Rightarrow> jsstring \<Rightarrow> (json list) parsed"
  and parse_members :: "nat \<Rightarrow> (jsstring \<times> json) list \<Rightarrow> jsstring
        \<Rightarrow> ((jsstring \<times> json) list) parsed"
where
  "parse_value 0 cs = OutOfFuel"
| "parse_value (Suc n) cs =
     (case skip_ws cs of
        [] \<Rightarrow> SyntaxError
      | c # r \<Rightarrow>
          if c = 123 then
            (if startsWith (skip_ws r) [125] then Parsed (JObject []) (tl (skip_ws r))
             else
               (case parse_members n [] r of
                  Parsed kvs r' \<Rightarrow> Parsed (JObject kvs) r'
                | SyntaxError \<Rightarrow> SyntaxError
                | OutOfFuel \<Rightarrow> OutOfFuel))
          else if c = 91 then
            (if startsWith (skip_ws r) [93] then Parsed (JArray []) (tl (skip_ws r))
             else
               (case parse_elements n [] r of
                  Parsed vs r' \<Rightarrow> Parsed (JArray vs) r'
                | SyntaxError \<Rightarrow> SyntaxError
                | OutOfFuel \<Rightarrow> OutOfFuel))
          else parse_scalar (c # r))"
| "parse_elements 0 acc cs = OutOfFuel"
| "parse_elements (Suc n) acc cs =
     (case parse_value n cs of
        OutOfFuel \<Rightarrow> OutOfFuel
      | SyntaxError \<Rightarrow> SyntaxError
      | Parsed v r \<Rightarrow>
          (case skip_ws r of
             [] \<Rightarrow> SyntaxError
           | c # r' \<Rightarrow>
               if c = 44 then parse_elements n (v # acc) r'
               else if c = 93 then Parsed (rev (v # acc)) r'
               else SyntaxError))"
| "parse_members 0 acc cs = OutOfFuel"
| "parse_members (Suc n) acc cs =
     (case skip_ws cs of
        [] \<Rightarrow> SyntaxError
      | q # r \<Rightarrow>
          if q \<noteq> 34 then SyntaxError
          else
            (case parse_chars [] r of
               None \<Rightarrow> SyntaxError
             | Some (k, r1) \<Rightarrow>
                 (case skip_ws r1 of
                    [] \<Rightarrow> SyntaxError
                  | c # r2 \<Rightarrow>
                      if c \<noteq> 58 then SyntaxError
                      else
                        (case parse_value n r2 of
                           OutOfFuel \<Rightarrow> OutOfFuel
                         | SyntaxError \<Rightarrow> SyntaxError
                         | Parsed v r3 \<Rightarrow>
                             (case skip_ws r3 of
                                [] \<Rightarrow> SyntaxError
                              | c' # r4 \<Rightarrow>
                                  if c' = 44 then parse_members n ((k, v) # acc) r4
                                  else if c' = 125 then Parsed (rev ((k, v) # acc)) r4
                                  else SyntaxError)))))"

text \<open>
  The whole text is one value, with white space around it. The bound is more than twice
  the length of the text.
\<close>

definition parse_text :: "jsstring \<Rightarrow> json parsed" where
  "parse_text s =
     (case parse_value (Suc (Suc (length s + length s))) s of
        OutOfFuel \<Rightarrow> OutOfFuel
      | SyntaxError \<Rightarrow> SyntaxError
      | Parsed v r \<Rightarrow> if skip_ws r = [] then Parsed v [] else SyntaxError)"

definition JSON_parse :: "jsstring \<Rightarrow> json option" where
  "JSON_parse s = (case parse_text s of Parsed v r \<Rightarrow> Some v | _ \<Rightarrow> None)"

section \<open>Messages\<close>

datatype ChatRole = User | Assistant | System

text \<open>\<open>ChatMessageData\<close> of \<open>components/ChatMessage.tsx\<close>.\<close>

record ChatMessageData =
  id_msg :: jsstring
  role :: ChatRole
  content :: jsstring
  createdAt :: nat

text \<open>
  \<open>createMessage\<close>: the identifier comes from \<open>generateId()\<close> and the time from
  \<open>Date.now()\<close>; both are inputs of the model.
\<close>

definition createMessage :: "jsstring \<times> nat \<Rightarrow> ChatRole \<Rightarrow> jsstring \<Rightarrow> ChatMessageData" where
  "createMessage fresh r c =
     \<lparr>id_msg = fst fresh, role = r, content = c, createdAt = snd fresh\<rparr>"

section \<open>The conversation-memory summary\<close>

definition MAX_MEMORY_MESSAGES :: nat where
  "MAX_MEMORY_MESSAGES = 6"

text \<open>The \<open>recent\<close> of \<open>generateConversationSummary\<close>: filter, then \<open>slice(-6)\<close>.\<close>

definition recent :: "ChatMessageData list \<Rightarrow> ChatMessageData list" where
  "recent history =
     slice_last MAX_MEMORY_MESSAGES
       (filter (\<lambda>message. role message = User \<or> role message = Assistant) history)"

text \<open>One line of the digest, or \<open>None\<close> for the \<open>null\<close> the source returns.\<close>

definition summary_line :: "ChatMessageData \<Rightarrow> jsstring option" where
  "summary_line message =
     (let speaker = (if role message = Assistant then ascii ''Eco AI'' else ascii ''User'');
          c = trim (replace_ws_runs False (content message))
      in if c = [] then None else Some (speaker @ ascii '': '' @ c))"

definition summary_lines :: "ChatMessageData list \<Rightarrow> jsstring list" where
  "summary_lines history = List.map_filter summary_line (recent history)"

definition generateConversationSummary :: "ChatMessageData list \<Rightarrow> jsstring" where
  "generateConversationSummary history =
     (if recent history = [] then []
      else let lines = summary_lines history in
        if lines = [] then []
        else let summary = join (ascii '' | '') lines in
          if length summary > 600 then take 597 summary @ ascii ''...'' else summary)"

section \<open>Streams and responses\<close>

text \<open>
  A byte stream as a reader sees it: the chunks it delivers, and whether it then ends
  or fails. A \<open>fetch\<close> either rejects (no connection) or resolves to a response with
  a status and possibly a body.
\<close>

datatype ending = Ended | Errored

type_synonym byte_stream = "nat list list \<times> ending"

datatype fetch_result = Rejected | Responded nat "byte_stream option"

text \<open>\<open>response.ok\<close>\<close>

definition ok :: "nat \<Rightarrow> bool" where
  "ok status \<longleftrightarrow> 200 \<le> status \<and> status \<le> 299"

section \<open>The relay endpoint\<close>

text \<open>
  The API route \<open>handler\<close>. A request is its method and the stream of its body; the
  environment is the value of \<open>OPENAI_API_KEY\<close> and what the provider answers
  to the one \<open>fetch\<close> the handler may issue. The outcome lists what the handler did to
  its response object, in order, and the upstream calls it issued.
\<close>

record request =
  req_method :: jsstring
  req_body :: byte_stream

record upstream_call =
  url :: jsstring
  authorization :: jsstring
  call_body :: json

datatype res_action =
    SetHeader jsstring "jsstring list"
  | StatusJson nat jsstring
  | WriteHead nat "(jsstring \<times> jsstring) list"
  | Write "nat list"
  | EndResponse

record outcome =
  actions :: "res_action list"
  upstream_calls :: "upstream_call list"

text \<open>
  \<open>bufferRequest\<close>: all chunks of the body, decoded at once; \<open>None\<close> when the request
  stream fails and the \<open>for await\<close> throws.
\<close>

definition bufferRequest :: "request \<Rightarrow> jsstring option" where
  "bufferRequest req =
     (case req_body req of
        (chunks, Ended) \<Rightarrow> Some (Buffer_toString (concat chunks))
      | (chunks, Errored) \<Rightarrow> None)"

text \<open>
  The events of the Node \<open>Readable\<close> that \<open>Readable.fromWeb\<close> makes of the upstream
  body, and the three listeners of the handler. A \<open>Readable\<close> of bytes emits no
  \<open>data\<close> event for a chunk of length zero: such a chunk is read and passed over.
\<close>

datatype stream_event = OnData "nat list" | OnEnd | OnError

definition events_of :: "byte_stream \<Rightarrow> stream_event list" where
  "events_of s =
     map OnData (filter (\<lambda>chunk. chunk \<noteq> []) (fst s))
     @ [case snd s of Ended \<Rightarrow> OnEnd | Errored \<Rightarrow> OnError]"

fun on_event :: "stream_event \<Rightarrow> res_action" where
  "on_event (OnData chunk) = Write chunk"
| "on_event OnError = EndResponse"
| "on_event OnEnd = EndResponse"

definition sse_headers :: "(jsstring \<times> jsstring) list" where
  "sse_headers =
     [(ascii ''Content-Type'', ascii ''text/event-stream''),
      (ascii ''Cache-Control'', ascii ''no-cache, no-transform''),
      (ascii ''Connection'', ascii ''keep-alive'')]"

text \<open>The body of the upstream request, before \<open>JSON.stringify\<close>.\<close>

definition completion_request :: "json \<Rightarrow> json" where
  "completion_request msgs =
     JObject [(ascii ''model'', JString (ascii ''gpt-4-turbo'')),
              (ascii ''stream'', JBool True),
              (ascii ''temperature'', JNumber (ascii ''0.7'')),
              (ascii ''messages'', msgs)]"

text \<open>The \<open>catch\<close> block of the handler, after the upstream calls \<open>cs\<close>.\<close>

definition caught :: "upstream_call list \<Rightarrow> outcome" where
  "caught cs =
     \<lparr>actions = [StatusJson 500 (ascii ''Something went wrong. Please try again.'')],
      upstream_calls = cs\<rparr>"

text \<open>
  The handler. Reading \<open>messages\<close> of \<open>null\<close> throws a \<open>TypeError\<close>; of any other
  value that is not an object it gives \<open>undefined\<close>. \<open>upstreamResponse.text()\<close>
  rejects when the body it reads fails. Where the call is built the key is present and
  \<open>messages\<close> is an array, so the \<open>None\<close> cases there are never taken.
\<close>

definition handler ::
  "(jsstring \<Rightarrow> json option) \<Rightarrow> jsstring option \<Rightarrow> request \<Rightarrow> fetch_result \<Rightarrow> outcome" where
  "handler parse apiKey req upstream =
     (if req_method req \<noteq> ascii ''POST'' then
        \<lparr>actions = [SetHeader (ascii ''Allow'') [ascii ''POST''],
                     StatusJson 405 (ascii ''Method not allowed'')],
         upstream_calls = []\<rparr>
      else if apiKey = None \<or> apiKey = Some [] then
        \<lparr>actions = [StatusJson 500 (ascii ''OpenAI API key is not configured.'')],
         upstream_calls = []\<rparr>
      else
        (case bufferRequest req of
           None \<Rightarrow> caught []
         | Some rawBody \<Rightarrow>
             (case parse rawBody of
                None \<Rightarrow> caught []
              | Some JNull \<Rightarrow> caught []
              | Some requestBody \<Rightarrow>
                  if \<not> isArray (get_prop requestBody (ascii ''messages'')) then
                    \<lparr>actions = [StatusJson 400 (ascii ''Invalid request payload.'')],
                     upstream_calls = []\<rparr>
                  else
                    (let call =
                       \<lparr>url = ascii ''https://api.openai.com/v1/chat/completions'',
                        authorization = ascii ''Bearer '' @ (case apiKey of Some k \<Rightarrow> k | None \<Rightarrow> []),
                        call_body = completion_request
                          (case get_prop requestBody (ascii ''messages'') of
                             Some ms \<Rightarrow> ms | None \<Rightarrow> JNull)\<rparr>
                     in case upstream of
                       Rejected \<Rightarrow> caught [call]
                     | Responded status None \<Rightarrow>
                         \<lparr>actions = [StatusJson status (ascii ''Failed to fetch from OpenAI.'')],
                          upstream_calls = [call]\<rparr>
                     | Responded status (Some stream) \<Rightarrow>
                         if \<not> ok status then
                           (if snd stream = Errored then caught [call]
                            else
                              \<lparr>actions =
                                 [StatusJson status (ascii ''Failed to fetch from OpenAI.'')],
                               upstream_calls = [call]\<rparr>)
                         else
                           \<lparr>actions = WriteHead 200 sse_headers # map on_event (events_of stream),
                            upstream_calls = [call]\<rparr>))))"

text \<open>What the caller receives: the status sent and the chunks written.\<close>

fun status_of :: "res_action list \<Rightarrow> nat option" where
  "status_of [] = None"
| "status_of (StatusJson n m # as) = Some n"
| "status_of (WriteHead n h # as) = Some n"
| "status_of (a # as) = status_of as"

fun written :: "res_action list \<Rightarrow> nat list list" where
  "written [] = []"
| "written (Write c # as) = c # written as"
| "written (a # as) = written as"

fun error_message :: "res_action list \<Rightarrow> jsstring option" where
  "error_message [] = None"
| "error_message (StatusJson n m # as) = Some m"
| "error_message (a # as) = error_message as"

section \<open>The incremental renderer\<close>

text \<open>
  The state of the \<open>Home\<close> component that a turn reads and writes, and the bodies of
  the requests sent to \<open>/api/chat\<close>. The speech state that \<open>stopSpeaking\<close> clears
  plays no part in a turn and is left out.
\<close>

type_synonym ApiMessage = "ChatRole \<times> jsstring"

record ui_state =
  messages :: "ChatMessageData list"
  isStreaming :: bool
  isHydrated :: bool
  error :: "jsstring option"
  input :: jsstring
  memory :: jsstring
  requests :: "ApiMessage list list"

definition SYSTEM_PROMPT :: ApiMessage where
  "SYSTEM_PROMPT =
     (System,
      ascii ''You are Eco AI '' @ [55356, 57151] @
      ascii '', an intelligent, calm, and creative assistant built by Chandon Kumar. Keep replies helpful, concise, and lightly witty with sparing emoji use. Reference earlier context when it helps, ask clarifying questions when unsure, and always introduce yourself as Eco AI when asked about your identity.'')"

definition mapMessagesToApi :: "ChatMessageData list \<Rightarrow> ApiMessage list" where
  "mapMessagesToApi history =
     filter (\<lambda>message. snd message \<noteq> [])
       (map (\<lambda>message. (role message, trim (content message)))
          (filter (\<lambda>message. role message = User \<or> role message = Assistant) history))"

subsection \<open>Reading a delta\<close>

text \<open>
  Truthiness and string conversion of a parsed value, as \<open>if (delta)\<close> and
  \<open>content + delta\<close> apply them. The provider sends strings, which are appended as
  they are. A number is a double in JavaScript; the model keeps its literal: a number is
  truthy when its mantissa has a digit other than 0, and its text is the literal. That is
  exact for the integer literals of up to 15 digits; the other number literals (which
  JavaScript may round, or print in another notation) are outside the model.
\<close>

definition number_truthy :: "jsstring \<Rightarrow> bool" where
  "number_truthy lit \<longleftrightarrow>
     (\<exists>c \<in> set (takeWhile (\<lambda>c. c \<noteq> 101 \<and> c \<noteq> 69) lit). 49 \<le> c \<and> c \<le> 57)"

definition number_text :: "jsstring \<Rightarrow> jsstring" where
  "number_text lit = (if lit = ascii ''-0'' then ascii ''0'' else lit)"

fun js_truthy :: "json \<Rightarrow> bool" where
  "js_truthy JNull = False"
| "js_truthy (JBool b) = b"
| "js_truthy (JNumber lit) = number_truthy lit"
| "js_truthy (JString s) = (s \<noteq> [])"
| "js_truthy (JArray xs) = True"
| "js_truthy (JObject kvs) = True"

fun to_text :: "json \<Rightarrow> jsstring" where
  "to_text JNull = ascii ''null''"
| "to_text (JBool b) = (if b then ascii ''true'' else ascii ''false'')"
| "to_text (JNumber lit) = number_text lit"
| "to_text (JString s) = s"
| "to_text (JArray xs) =
     join (ascii '','') (map (\<lambda>x. if x = JNull then [] else to_text x) xs)"
| "to_text (JObject kvs) = ascii ''[object Object]''"

text \<open>
  \<open>parsed.choices?.[0]?.delta?.content ?? ''\<close>. Reading \<open>choices\<close> of \<open>null\<close>
  throws; every later step is guarded by \<open>?.\<close>.
\<close>

datatype 'a completion = Threw | Normal 'a

definition chunk_delta :: "json \<Rightarrow> json completion" where
  "chunk_delta parsed =
     (if parsed = JNull then Threw
      else
        (case opt_chain
                (opt_chain
                   (opt_chain (get_prop parsed (ascii ''choices'')) index0)
                   (\<lambda>choice. get_prop choice (ascii ''delta'')))
                (\<lambda>delta. get_prop delta (ascii ''content'')) of
           None \<Rightarrow> Normal (JString [])
         | Some JNull \<Rightarrow> Normal (JString [])
         | Some c \<Rightarrow> Normal c))"

subsection \<open>The reading loop\<close>

text \<open>\<open>trimmed.replace(/^data:\s*/, '')\<close>\<close>

definition strip_data_prefix :: "jsstring \<Rightarrow> jsstring" where
  "strip_data_prefix trimmed =
     (if startsWith trimmed (ascii ''data:'') then dropWhile is_space (drop 5 trimmed)
      else trimmed)"

text \<open>
  \<open>next[next.length - 1] = x\<close> on a copy of the list; on an empty list the assignment
  sets the property \<open>-1\<close> and the list stays empty.
\<close>

definition set_last :: "'a list \<Rightarrow> 'a \<Rightarrow> 'a list" where
  "set_last xs x = (if xs = [] then [] else butlast xs @ [x])"

text \<open>
  The head of the loop body: a line is skipped (\<open>None\<close>) unless, trimmed, it is not
  empty and starts with \<open>data:\<close>; then its payload is what follows the prefix.
\<close>

definition data_payload :: "jsstring \<Rightarrow> jsstring option" where
  "data_payload line =
     (let trimmed = trim line in
      if trimmed = [] \<or> \<not> startsWith trimmed (ascii ''data:'') then None
      else Some (strip_data_prefix trimmed))"

text \<open>
  The body of the \<open>for\<close> loop over the lines of a chunk. The local variable
  \<open>assistantMessage\<close> travels with the state. \<open>Returned\<close> is the \<open>return\<close> at the
  sentinel, after \<open>setIsStreaming(false)\<close>. A payload that \<open>JSON.parse\<close> rejects, or
  whose value is \<open>null\<close>, throws inside the inner \<open>try\<close> and the loop goes on.
\<close>

datatype loop_step = Returned ui_state | Continue ChatMessageData ui_state

definition process_line ::
  "(jsstring \<Rightarrow> json option) \<Rightarrow> jsstring \<Rightarrow> ChatMessageData \<Rightarrow> ui_state \<Rightarrow> loop_step" where
  "process_line parse line assistantMessage st =
     (case data_payload line of
        None \<Rightarrow> Continue assistantMessage st
      | Some payload \<Rightarrow>
          if payload = ascii ''[DONE]'' then Returned (st\<lparr>isStreaming := False\<rparr>)
          else
            (case parse payload of
               None \<Rightarrow> Continue assistantMessage st
             | Some parsed \<Rightarrow>
                 (case chunk_delta parsed of
                    Threw \<Rightarrow> Continue assistantMessage st
                  | Normal delta \<Rightarrow>
                      if js_truthy delta then
                        (let am = assistantMessage
                               \<lparr>content := content assistantMessage @ to_text delta\<rparr>
                         in Continue am (st\<lparr>messages := set_last (messages st) am\<rparr>))
                      else Continue assistantMessage st)))"

fun process_lines ::
  "(jsstring \<Rightarrow> json option) \<Rightarrow> jsstring list \<Rightarrow> ChatMessageData \<Rightarrow> ui_state \<Rightarrow> loop_step" where
  "process_lines parse [] am st = Continue am st"
| "process_lines parse (line # lines) am st =
     (case process_line parse line am st of
        Returned st' \<Rightarrow> Returned st'
      | Continue am' st' \<Rightarrow> process_lines parse lines am' st')"

text \<open>How a call of \<open>sendTextMessage\<close> ended: without a request, normally, or in its \<open>catch\<close>.\<close>

datatype turn_end = NotStarted | Done | Failed

text \<open>The \<open>catch\<close> block of \<open>sendTextMessage\<close>.\<close>

definition fail :: "ui_state \<Rightarrow> ui_state" where
  "fail st =
     st\<lparr>isStreaming := False,
        error := Some (ascii ''Something went wrong, try again.''),
        messages := filter (\<lambda>msg. role msg \<noteq> Assistant \<or> content msg \<noteq> []) (messages st)\<rparr>"

text \<open>
  The \<open>while (true)\<close> loop: one \<open>reader.read()\<close> per chunk. At the end of the stream
  the read reports \<open>done\<close>, or rejects when the stream failed.
\<close>

fun read_loop ::
  "(jsstring \<Rightarrow> json option) \<Rightarrow> utf8_decoder \<Rightarrow> nat list list \<Rightarrow> ending
     \<Rightarrow> ChatMessageData \<Rightarrow> ui_state \<Rightarrow> turn_end \<times> ui_state" where
  "read_loop parse decoder [] Ended am st = (Done, st\<lparr>isStreaming := False\<rparr>)"
| "read_loop parse decoder [] Errored am st = (Failed, fail st)"
| "read_loop parse decoder (chunk # chunks) e am st =
     (let (decoder', chunkValue) = decode decoder chunk in
      case process_lines parse (split_lines chunkValue) am st of
        Returned st' \<Rightarrow> (Done, st')
      | Continue am' st' \<Rightarrow> read_loop parse decoder' chunks e am' st')"

text \<open>The state of the decoder after the chunks \<open>cs\<close> were read.\<close>

definition decoder_after :: "utf8_decoder \<Rightarrow> nat list list \<Rightarrow> utf8_decoder" where
  "decoder_after d cs = foldl (\<lambda>d c. fst (decode d c)) d cs"

definition systemMessages :: "jsstring \<Rightarrow> ApiMessage list" where
  "systemMessages mem =
     (if mem \<noteq> [] then
        [SYSTEM_PROMPT, (System, ascii ''Long-term memory summary: '' @ mem)]
      else [SYSTEM_PROMPT])"

text \<open>
  \<open>sendTextMessage\<close>. \<open>fresh\<close> is the identifier and time of the assistant message the
  turn creates; \<open>response\<close> is what the \<open>fetch\<close> of \<open>/api/chat\<close> gives.
\<close>

definition sendTextMessage ::
  "(jsstring \<Rightarrow> json option) \<Rightarrow> jsstring \<times> nat \<Rightarrow> fetch_result \<Rightarrow> ApiMessage list
     \<Rightarrow> ui_state \<Rightarrow> turn_end \<times> ui_state" where
  "sendTextMessage parse fresh response history st0 =
     (let st1 = st0\<lparr>isStreaming := True, error := None\<rparr> in
      if history = [] then (NotStarted, st1\<lparr>isStreaming := False\<rparr>)
      else
        (let st2 = st1\<lparr>requests := requests st1 @ [systemMessages (memory st1) @ history]\<rparr> in
         case response of
           Rejected \<Rightarrow> (Failed, fail st2)
         | Responded status None \<Rightarrow> (Failed, fail st2)
         | Responded status (Some stream) \<Rightarrow>
             if \<not> ok status then (Failed, fail st2)
             else
               (let assistantMessage = createMessage fresh Assistant [];
                    st3 = st2\<lparr>messages := messages st2 @ [assistantMessage]\<rparr>
                in read_loop parse utf8_init (fst stream) (snd stream) assistantMessage st3)))"

text \<open>\<open>sendUserPrompt\<close>, and \<open>submitMessage\<close> with the condition that disables the button.\<close>

definition sendUserPrompt ::
  "(jsstring \<Rightarrow> json option) \<Rightarrow> jsstring \<times> nat \<Rightarrow> jsstring \<times> nat \<Rightarrow> fetch_result
     \<Rightarrow> jsstring \<Rightarrow> ui_state \<Rightarrow> turn_end \<times> ui_state" where
  "sendUserPrompt parse fresh_user fresh_assistant response prompt st =
     (let trimmed = trim prompt in
      if trimmed = [] \<or> isStreaming st \<or> \<not> isHydrated st then (NotStarted, st)
      else
        (let userMessage = createMessage fresh_user User trimmed;
             updatedMessages = messages st @ [userMessage];
             st' = st\<lparr>error := None, messages := updatedMessages, input := []\<rparr>
         in sendTextMessage parse fresh_assistant response
              (mapMessagesToApi updatedMessages) st'))"

definition submitMessage ::
  "(jsstring \<Rightarrow> json option) \<Rightarrow> jsstring \<times> nat \<Rightarrow> jsstring \<times> nat \<Rightarrow> fetch_result
     \<Rightarrow> ui_state \<Rightarrow> turn_end \<times> ui_state" where
  "submitMessage parse fresh_user fresh_assistant response st =
     (if trim (input st) = [] then (NotStarted, st)
      else sendUserPrompt parse fresh_user fresh_assistant response (trim (input st)) st)"

definition submit_disabled :: "ui_state \<Rightarrow> bool" where
  "submit_disabled st \<longleftrightarrow> isStreaming st \<or> trim (input st) = []"




section \<open>Example inputs\<close>

text \<open>
  Requests, event lines and states used to evaluate the definitions. An event of the
  provider's stream is a \<open>data:\<close> line followed by an empty line; for a line of ASCII
  characters the bytes are its code units.
\<close>

definition example_request :: request where
  \<open>example_request =
     \<lparr>req_method = ascii ''POST'',
      req_body = ([ascii ''{"messages":[{"role":"user",'', ascii ''"content":"Hi"}]}''], Ended)\<rparr>\<close>

definition example_messages :: json where
  "example_messages =
     JArray [JObject [(ascii ''role'', JString (ascii ''user'')),
                      (ascii ''content'', JString (ascii ''Hi''))]]"

definition not_json_request :: request where
  \<open>not_json_request =
     \<lparr>req_method = ascii ''POST'', req_body = ([ascii ''{"messages":''], Ended)\<rparr>\<close>

definition no_messages_request :: request where
  \<open>no_messages_request =
     \<lparr>req_method = ascii ''POST'', req_body = ([ascii ''{"messages":"Hi"}''], Ended)\<rparr>\<close>

definition bad_elements_request :: request where
  \<open>bad_elements_request =
     \<lparr>req_method = ascii ''POST'', req_body = ([ascii ''{"messages":[1,"x"]}''], Ended)\<rparr>\<close>

definition line_hel :: jsstring where
  \<open>line_hel = ascii ''data: {"choices":[{"delta":{"content":"Hel"}}]}''\<close>

definition line_lo :: jsstring where
  \<open>line_lo = ascii ''data: {"choices":[{"delta":{"content":"lo"}}]}''\<close>

definition line_done :: jsstring where
  "line_done = ascii ''data: [DONE]''"

definition line_hello :: jsstring where
  \<open>line_hello = ascii ''data: {"choices":[{"delta":{"content":"Hello"}}]}''\<close>

definition line_bad :: jsstring where
  \<open>line_bad = ascii ''data: {"choices":[{"delta":''\<close>

definition event :: "jsstring \<Rightarrow> nat list" where
  "event line = line @ [10, 10]"

definition hello_chunkings :: "nat list list list" where
  "hello_chunkings =
     [[event line_hel, event line_lo, event line_done],
      [event line_hel @ event line_lo @ event line_done],
      [event line_hel @ event line_lo, event line_done],
      [event line_hel, event line_lo @ event line_done]]"

definition part_a :: "nat list" where
  \<open>part_a = ascii ''data: {"choices":[{"delta":{"content":"Hel''\<close>

definition part_b :: "nat list" where
  \<open>part_b = ascii ''lo"}}]}'' @ [10, 10]\<close>

definition example_state :: ui_state where
  "example_state =
     \<lparr>messages = [createMessage (ascii ''m1'', 1) User (ascii ''Hi'')],
      isStreaming = False, isHydrated = True, error = None, input = [], memory = [],
      requests = []\<rparr>"

text \<open>
  A history of seven user/assistant messages and two system messages, one assistant
  message being blank; and a history whose digest is longer than 600 code units.
\<close>

definition example_history :: "ChatMessageData list" where
  "example_history =
     [createMessage (ascii ''h0'', 0) Assistant (ascii ''Hey there!''),
      createMessage (ascii ''h1'', 1) User (ascii ''one''),
      createMessage (ascii ''h2'', 2) System (ascii ''note''),
      createMessage (ascii ''h3'', 3) Assistant (ascii ''two''),
      createMessage (ascii ''h4'', 4) User ([32, 32] @ ascii ''three'' @ [9, 10, 32] @ ascii ''four'' @ [32]),
      createMessage (ascii ''h5'', 5) Assistant [32, 10],
      createMessage (ascii ''h6'', 6) User (ascii ''five''),
      createMessage (ascii ''h7'', 7) System (ascii ''last note''),
      createMessage (ascii ''h8'', 8) Assistant (ascii ''six'')]"

definition long_history :: "ChatMessageData list" where
  "long_history = [createMessage (ascii ''h1'', 1) User (replicate 700 97)]"

definition example_assistant :: ChatMessageData where
  "example_assistant = createMessage (ascii ''m2'', 2) Assistant []"

definition streaming_state :: ui_state where
  "streaming_state =
     example_state\<lparr>isStreaming := True,
       messages := messages example_state @ [example_assistant]\<rparr>"

section \<open>Properties of the summary\<close>

lemma recent_length: "length (recent history) \<le> 6"
  by (simp add: recent_def slice_last_def MAX_MEMORY_MESSAGES_def)

lemma recent_idem: "recent (recent history) = recent history"
proof -
  let ?p = "\<lambda>message. role message = User \<or> role message = Assistant"
  have "filter ?p (recent history) = recent history"
    unfolding recent_def slice_last_def
    by (rule filter_True) (auto dest: in_set_dropD)
  moreover have "slice_last MAX_MEMORY_MESSAGES (recent history) = recent history"
    using recent_length [of history]
    by (simp add: slice_last_def MAX_MEMORY_MESSAGES_def)
  ultimately show ?thesis
    by (simp add: recent_def [of "recent history"])
qed

lemma summary_length: "length (generateConversationSummary history) \<le> 600"
  by (simp add: generateConversationSummary_def Let_def ascii_def)

lemma recent_suffix:
  "\<exists>older. filter (\<lambda>message. role message = User \<or> role message = Assistant) history
      = older @ recent history"
proof -
  let ?ua = "filter (\<lambda>message. role message = User \<or> role message = Assistant) history"
  have "?ua = take (length ?ua - 6) ?ua @ recent history"
    by (simp add: recent_def slice_last_def MAX_MEMORY_MESSAGES_def)
  then show ?thesis ..
qed

lemma recent_length_min:
  "length (recent history)
     = min 6 (length (filter (\<lambda>message. role message = User \<or> role message = Assistant) history))"
  by (simp add: recent_def slice_last_def MAX_MEMORY_MESSAGES_def)

lemma summary_lines_explicit:
  "summary_lines history =
     map (\<lambda>message. (if role message = Assistant then ascii ''Eco AI'' else ascii ''User'')
            @ ascii '': '' @ trim (replace_ws_runs False (content message)))
       (filter (\<lambda>message. trim (replace_ws_runs False (content message)) \<noteq> [])
          (recent history))"
  by (induction "recent history")
     (auto simp: summary_lines_def List.map_filter_def summary_line_def Let_def)

lemma summary_of_recent:
  "recent h1 = recent h2 \<Longrightarrow> generateConversationSummary h1 = generateConversationSummary h2"
  by (simp add: generateConversationSummary_def summary_lines_def)

lemma recent_older:
  assumes "6 \<le> length (filter (\<lambda>message. role message = User \<or> role message = Assistant) history)"
  shows "recent (earlier @ history) = recent history"
  using assms by (simp add: recent_def slice_last_def MAX_MEMORY_MESSAGES_def)

lemma recent_filter:
  "recent (filter (\<lambda>message. role message = User \<or> role message = Assistant) history)
     = recent history"
  by (simp add: recent_def)

lemmas summary_eval = generateConversationSummary_def summary_lines_def summary_line_def
  recent_def slice_last_def MAX_MEMORY_MESSAGES_def List.map_filter_def trim_def is_space_def
  ascii_def createMessage_def Let_def

lemma example_summary:
  "generateConversationSummary example_history
     = ascii ''User: one | Eco AI: two | User: three four | User: five | Eco AI: six''"
  by (simp add: example_history_def summary_eval)

lemma example_recent:
  "recent example_history =
     [createMessage (ascii ''h1'', 1) User (ascii ''one''),
      createMessage (ascii ''h3'', 3) Assistant (ascii ''two''),
      createMessage (ascii ''h4'', 4) User ([32, 32] @ ascii ''three'' @ [9, 10, 32] @ ascii ''four'' @ [32]),
      createMessage (ascii ''h5'', 5) Assistant [32, 10],
      createMessage (ascii ''h6'', 6) User (ascii ''five''),
      createMessage (ascii ''h8'', 8) Assistant (ascii ''six'')]"
  by (simp add: example_history_def recent_def slice_last_def MAX_MEMORY_MESSAGES_def
      createMessage_def)

lemma replace_ws_runs_plain: "\<forall>c \<in> set cs. \<not> is_space c \<Longrightarrow> replace_ws_runs b cs = cs"
  by (induction cs arbitrary: b) simp_all

lemma trim_plain: "\<forall>c \<in> set cs. \<not> is_space c \<Longrightarrow> trim cs = cs"
proof -
  assume a: "\<forall>c \<in> set cs. \<not> is_space c"
  then have "dropWhile is_space cs = cs"
    by (cases cs) simp_all
  moreover from a have "dropWhile is_space (rev cs) = rev cs"
    by (cases "rev cs") (simp, metis dropWhile_eq_self_iff hd_in_set list.discI set_rev)
  ultimately show ?thesis
    by (simp add: trim_def)
qed

lemma long_summary:
  "generateConversationSummary long_history = ascii ''User: '' @ replicate 591 97 @ ascii ''...''"
proof -
  have p: "\<forall>c \<in> set (replicate 700 (97::nat)). \<not> is_space c"
    by (simp add: is_space_def)
  have l: "length (ascii ''User: '') = 6"
    by (simp add: ascii_def)
  have u: "ascii ''User'' @ ascii '': '' = ascii ''User: ''"
    by (simp add: ascii_def)
  have r: "recent long_history = long_history"
    by (simp add: recent_def slice_last_def long_history_def createMessage_def
        MAX_MEMORY_MESSAGES_def)
  have n: "replicate 700 (97::nat) \<noteq> []"
    by (simp)
  have s: "summary_lines long_history = [ascii ''User: '' @ replicate 700 97]"
    unfolding summary_lines_explicit r
    by (simp add: long_history_def createMessage_def replace_ws_runs_plain [OF p]
        trim_plain [OF p] n u)
  have t: "take 597 (ascii ''User: '' @ replicate 700 97) = ascii ''User: '' @ replicate 591 97"
    by (simp add: l)
  have e: "long_history \<noteq> []"
    by (simp add: long_history_def)
  show ?thesis
    by (simp add: generateConversationSummary_def r e s Let_def l t)
qed

text \<open>
  C10. The summary is computed from at most the 6 most recent user/assistant messages:
  \<open>recent history\<close> is the end of the list of user/assistant messages, 6 of them or
  all when there are fewer; the summary is that of \<open>recent history\<close>, it ignores the
  messages of other roles, and it ignores every message before the last 6. Its lines are
  the speaker and the content, white space collapsed and trimmed, of those of the recent
  messages whose content is not blank. It is never longer than 600 code units: a joined
  digest longer than 600 is cut to its first 597 code units followed by three dots.
\<close>

theorem summary_bounded:
  "length (recent history) \<le> MAX_MEMORY_MESSAGES
   \<and> generateConversationSummary history = generateConversationSummary (recent history)
   \<and> length (generateConversationSummary history) \<le> 600
   \<and> generateConversationSummary history =
       (let summary = join (ascii '' | '') (summary_lines history)
        in if length summary > 600 then take 597 summary @ ascii ''...'' else summary)
   \<and> (\<exists>older. filter (\<lambda>message. role message = User \<or> role message = Assistant) history
          = older @ recent history)
   \<and> length (recent history)
       = min 6 (length (filter (\<lambda>message. role message = User \<or> role message = Assistant)
           history))
   \<and> summary_lines history =
       map (\<lambda>message. (if role message = Assistant then ascii ''Eco AI'' else ascii ''User'')
              @ ascii '': '' @ trim (replace_ws_runs False (content message)))
         (filter (\<lambda>message. trim (replace_ws_runs False (content message)) \<noteq> [])
            (recent history))
   \<and> (6 \<le> length (filter (\<lambda>message. role message = User \<or> role message = Assistant) history)
        \<longrightarrow> generateConversationSummary (earlier @ history)
            = generateConversationSummary history)
   \<and> generateConversationSummary
         (filter (\<lambda>message. role message = User \<or> role message = Assistant) history)
       = generateConversationSummary history"
proof -
  have a: "length (recent history) \<le> MAX_MEMORY_MESSAGES"
    using recent_length [of history] by (simp add: MAX_MEMORY_MESSAGES_def)
  have b: "generateConversationSummary history = generateConversationSummary (recent history)"
    by (rule summary_of_recent) (simp add: recent_idem)
  have c: "length (generateConversationSummary history) \<le> 600"
    by (rule summary_length)
  have d: "generateConversationSummary history =
       (let summary = join (ascii '' | '') (summary_lines history)
        in if length summary > 600 then take 597 summary @ ascii ''...'' else summary)"
    by (simp add: generateConversationSummary_def summary_lines_def Let_def)
  have e: "6 \<le> length (filter (\<lambda>message. role message = User \<or> role message = Assistant) history)
        \<longrightarrow> generateConversationSummary (earlier @ history)
            = generateConversationSummary history"
    by (auto intro: summary_of_recent recent_older)
  have f: "generateConversationSummary
         (filter (\<lambda>message. role message = User \<or> role message = Assistant) history)
       = generateConversationSummary history"
    by (rule summary_of_recent) (rule recent_filter)
  from a b c d e f recent_suffix [of history] recent_length_min [of history]
    summary_lines_explicit [of history]
  show ?thesis
    by blast
qed

theorem summary_bounded_witness:
  "recent example_history =
     [createMessage (ascii ''h1'', 1) User (ascii ''one''),
      createMessage (ascii ''h3'', 3) Assistant (ascii ''two''),
      createMessage (ascii ''h4'', 4) User
        ([32, 32] @ ascii ''three'' @ [9, 10, 32] @ ascii ''four'' @ [32]),
      createMessage (ascii ''h5'', 5) Assistant [32, 10],
      createMessage (ascii ''h6'', 6) User (ascii ''five''),
      createMessage (ascii ''h8'', 8) Assistant (ascii ''six'')]
   \<and> generateConversationSummary example_history
       = ascii ''User: one | Eco AI: two | User: three four | User: five | Eco AI: six''
   \<and> generateConversationSummary
         ([createMessage (ascii ''h9'', 9) User (ascii ''zero'')] @ example_history)
       = ascii ''User: one | Eco AI: two | User: three four | User: five | Eco AI: six''
   \<and> generateConversationSummary long_history
       = ascii ''User: '' @ replicate 591 97 @ ascii ''...''
   \<and> length (generateConversationSummary long_history) = 600"
proof -
  have n: "6 \<le> length (filter (\<lambda>message. role message = User \<or> role message = Assistant)
      example_history)"
    by (simp add: example_history_def createMessage_def)
  have o: "generateConversationSummary
         ([createMessage (ascii ''h9'', 9) User (ascii ''zero'')] @ example_history)
       = generateConversationSummary example_history"
    using summary_bounded [of example_history "[createMessage (ascii ''h9'', 9) User (ascii ''zero'')]"]
      n
    by blast
  have l: "length (ascii ''User: '' @ replicate 591 (97::nat) @ ascii ''...'') = 600"
    by (simp add: ascii_def)
  show ?thesis
    by (simp only: o example_summary example_recent long_summary l simp_thms)
qed

section \<open>Properties of the parser\<close>

text \<open>
  Every successful parse reads at least one code unit, so the bound \<open>parse_text\<close>
  starts with is never reached: \<open>JSON_parse\<close> gives \<open>None\<close> exactly for a text that is
  not JSON.
\<close>

lemma skip_ws_length: "length (skip_ws cs) \<le> length cs"
  by (simp add: skip_ws_def length_dropWhile_le)

lemma skip_ws_Cons: "skip_ws cs = c # r \<Longrightarrow> length r < length cs"
  using skip_ws_length [of cs] by simp

lemma parse_chars_shorter: "parse_chars acc cs = Some (s, r) \<Longrightarrow> length r < length cs"
proof (induction acc cs rule: parse_chars.induct)
  case (1 acc)
  then show ?case by simp
next
  case (2 acc c cs)
  then show ?case
    by (auto split: if_splits list.splits option.splits) fastforce+
qed

lemma parse_digits_shorter: "parse_digits cs = Some (ds, r) \<Longrightarrow> length r < length cs"
proof -
  assume a: "parse_digits cs = Some (ds, r)"
  then have t: "takeWhile is_digit cs \<noteq> []" and r: "r = dropWhile is_digit cs"
    by (auto simp: parse_digits_def Let_def split: if_splits)
  from t have "0 < length (takeWhile is_digit cs)"
    by (cases "takeWhile is_digit cs") auto
  moreover have "length (takeWhile is_digit cs) + length (dropWhile is_digit cs) = length cs"
    by (metis length_append takeWhile_dropWhile_id)
  ultimately show ?thesis
    unfolding r by linarith
qed

lemma parse_fraction_le: "parse_fraction cs = (fp, r) \<Longrightarrow> length r \<le> length cs"
  using parse_digits_shorter [of "tl cs"]
  by (auto simp: parse_fraction_def split: if_splits option.splits)

lemma parse_exponent_le: "parse_exponent cs = (ep, r) \<Longrightarrow> length r \<le> length cs"
  using parse_digits_shorter [of "tl cs"] parse_digits_shorter [of "tl (tl cs)"]
  by (auto simp: parse_exponent_def Let_def split: if_splits option.splits)

lemma parse_number_shorter:
  assumes "parse_number cs = Some (lit, r)"
  shows "length r < length cs"
proof -
  let ?r0 = "if startsWith cs [45] then tl cs else cs"
  have r0: "length ?r0 \<le> length cs"
    by simp
  from assms obtain ip r1 where d: "parse_digits ?r0 = Some (ip, r1)"
    by (auto simp: parse_number_def Let_def split: option.splits)
  then have r1: "length r1 < length ?r0"
    by (rule parse_digits_shorter)
  show ?thesis
  proof (cases "hd ip = 48 \<and> length ip > 1")
    case True
    then have "r = tl ?r0"
      using assms d by (auto simp: parse_number_def Let_def)
    then show ?thesis
      using r0 r1 by (cases ?r0) (auto split: if_splits)
  next
    case False
    obtain fp r2 where f: "parse_fraction r1 = (fp, r2)"
      by (cases "parse_fraction r1") auto
    obtain ep r3 where e: "parse_exponent r2 = (ep, r3)"
      by (cases "parse_exponent r2") auto
    have r: "r = r3"
      using assms d False f e by (auto simp: parse_number_def Let_def)
    have "length r3 < length cs"
      using r0 r1 parse_fraction_le [OF f] parse_exponent_le [OF e] by linarith
    then show ?thesis
      by (simp add: r)
  qed
qed

lemma parse_scalar_shorter: "parse_scalar cs = Parsed v r \<Longrightarrow> length r < length cs"
  by (cases cs)
     (auto simp: parse_scalar_def startsWith_def ascii_def
        split: if_splits option.splits dest!: parse_chars_shorter parse_number_shorter)

lemma parse_shorter:
  "(\<forall>cs v r. parse_value n cs = Parsed v r \<longrightarrow> length r < length cs)
   \<and> (\<forall>acc cs vs r. parse_elements n acc cs = Parsed vs r \<longrightarrow> length r < length cs)
   \<and> (\<forall>acc cs kvs r. parse_members n acc cs = Parsed kvs r \<longrightarrow> length r < length cs)"
proof (induction n)
  case 0
  then show ?case by simp
next
  case (Suc n)
  then have
    v: "\<And>cs v r. parse_value n cs = Parsed v r \<Longrightarrow> length r < length cs" and
    e: "\<And>acc cs vs r. parse_elements n acc cs = Parsed vs r \<Longrightarrow> length r < length cs" and
    m: "\<And>acc cs kvs r. parse_members n acc cs = Parsed kvs r \<Longrightarrow> length r < length cs"
    by blast+
  have V: "length r < length cs" if a: "parse_value (Suc n) cs = Parsed v r" for cs v r
  proof (cases "skip_ws cs")
    case Nil
    then show ?thesis using a by simp
  next
    case (Cons c t)
    note t = skip_ws_Cons [OF Cons]
    consider "c = 123" | "c \<noteq> 123" "c = 91" | "c \<noteq> 123" "c \<noteq> 91"
      by blast
    then show ?thesis
    proof cases
      case 1
      show ?thesis
      proof (cases "startsWith (skip_ws t) [125]")
        case True
        then have "r = tl (skip_ws t)"
          using a Cons 1 by simp
        then show ?thesis
          using t skip_ws_length [of t] by (cases "skip_ws t") auto
      next
        case False
        then obtain kvs where "parse_members n [] t = Parsed kvs r"
          using a Cons 1 by (auto split: parsed.splits)
        from m [OF this] show ?thesis
          using t by simp
      qed
    next
      case 2
      show ?thesis
      proof (cases "startsWith (skip_ws t) [93]")
        case True
        then have "r = tl (skip_ws t)"
          using a Cons 2 by simp
        then show ?thesis
          using t skip_ws_length [of t] by (cases "skip_ws t") auto
      next
        case False
        then obtain vs where "parse_elements n [] t = Parsed vs r"
          using a Cons 2 by (auto split: parsed.splits)
        from e [OF this] show ?thesis
          using t by simp
      qed
    next
      case 3
      then have "parse_scalar (c # t) = Parsed v r"
        using a Cons by simp
      from parse_scalar_shorter [OF this] show ?thesis
        using t by simp
    qed
  qed
  have E: "length r < length cs" if a: "parse_elements (Suc n) acc cs = Parsed vs r"
    for acc cs vs r
  proof -
    from a obtain v r1 where p: "parse_value n cs = Parsed v r1"
      by (auto split: parsed.splits)
    from a p obtain c r2 where s: "skip_ws r1 = c # r2"
      by (cases "skip_ws r1") auto
    have "length r \<le> length r2"
      using a p s e [of "v # acc" r2 vs r] by (auto split: if_splits)
    then show ?thesis
      using v [OF p] skip_ws_Cons [OF s] by linarith
  qed
  have M: "length r < length cs" if a: "parse_members (Suc n) acc cs = Parsed kvs r"
    for acc cs kvs r
  proof -
    from a obtain q t where s0: "skip_ws cs = q # t"
      by (cases "skip_ws cs") auto
    from a s0 obtain k r1 where k: "parse_chars [] t = Some (k, r1)"
      by (auto split: if_splits option.splits)
    from a s0 k obtain c r2 where s1: "skip_ws r1 = c # r2"
      by (cases "skip_ws r1") (auto split: if_splits)
    from a s0 k s1 obtain v r3 where p: "parse_value n r2 = Parsed v r3"
      by (auto split: if_splits parsed.splits)
    from a s0 k s1 p obtain c' r4 where s2: "skip_ws r3 = c' # r4"
      by (cases "skip_ws r3") (auto split: if_splits)
    have "length r \<le> length r4"
      using a s0 k s1 p s2 m [of "(k, v) # acc" r4 kvs r] by (auto split: if_splits)
    then show ?thesis
      using skip_ws_Cons [OF s0] parse_chars_shorter [OF k] skip_ws_Cons [OF s1] v [OF p]
        skip_ws_Cons [OF s2]
      by linarith
  qed
  from V E M show ?case
    by blast
qed

lemma parse_value_shorter: "parse_value n cs = Parsed v r \<Longrightarrow> length r < length cs"
  using parse_shorter [of n] by blast

lemma enough_fuel:
  "(\<forall>cs. 2 * length cs + 1 \<le> n \<longrightarrow> parse_value n cs \<noteq> OutOfFuel)
   \<and> (\<forall>acc cs. 2 * length cs + 2 \<le> n \<longrightarrow> parse_elements n acc cs \<noteq> OutOfFuel)
   \<and> (\<forall>acc cs. 2 * length cs + 2 \<le> n \<longrightarrow> parse_members n acc cs \<noteq> OutOfFuel)"
proof (induction n)
  case 0
  then show ?case by simp
next
  case (Suc n)
  then have
    v: "\<And>cs. 2 * length cs + 1 \<le> n \<Longrightarrow> parse_value n cs \<noteq> OutOfFuel" and
    e: "\<And>acc cs. 2 * length cs + 2 \<le> n \<Longrightarrow> parse_elements n acc cs \<noteq> OutOfFuel" and
    m: "\<And>acc cs. 2 * length cs + 2 \<le> n \<Longrightarrow> parse_members n acc cs \<noteq> OutOfFuel"
    by blast+
  have sc: "parse_scalar cs \<noteq> OutOfFuel" for cs
    by (simp add: parse_scalar_def split: option.splits)
  have V: "parse_value (Suc n) cs \<noteq> OutOfFuel" if b: "2 * length cs + 1 \<le> Suc n" for cs
  proof (cases "skip_ws cs")
    case Nil
    then show ?thesis by simp
  next
    case (Cons c t)
    from skip_ws_Cons [OF Cons] b have "2 * length t + 2 \<le> n"
      by linarith
    then show ?thesis
      using Cons e [of t "[]"] m [of t "[]"] sc [of "c # t"]
      by (auto split: parsed.splits)
  qed
  have E: "parse_elements (Suc n) acc cs \<noteq> OutOfFuel" if b: "2 * length cs + 2 \<le> Suc n"
    for acc cs
  proof (cases "parse_value n cs")
    case OutOfFuel
    then show ?thesis
      using v [of cs] b by simp
  next
    case SyntaxError
    then show ?thesis by simp
  next
    case (Parsed x r1)
    show ?thesis
    proof (cases "skip_ws r1")
      case Nil
      then show ?thesis using Parsed by simp
    next
      case (Cons c r2)
      from parse_value_shorter [OF Parsed] skip_ws_Cons [OF Cons] b
      have "2 * length r2 + 2 \<le> n"
        by linarith
      then show ?thesis
        using Parsed Cons e [of r2 "x # acc"] by simp
    qed
  qed
  have M: "parse_members (Suc n) acc cs \<noteq> OutOfFuel" if b: "2 * length cs + 2 \<le> Suc n"
    for acc cs
  proof (cases "skip_ws cs")
    case Nil
    then show ?thesis by simp
  next
    case s0: (Cons q t)
    show ?thesis
    proof (cases "parse_chars [] t")
      case None
      then show ?thesis using s0 by simp
    next
      case (Some kr)
      obtain k r1 where kr: "kr = (k, r1)"
        by (cases kr) auto
      note k = Some [unfolded kr]
      show ?thesis
      proof (cases "skip_ws r1")
        case Nil
        then show ?thesis using s0 k by simp
      next
        case s1: (Cons c r2)
        have l2: "2 * length r2 + 1 \<le> n"
          using skip_ws_Cons [OF s0] parse_chars_shorter [OF k] skip_ws_Cons [OF s1] b
          by linarith
        show ?thesis
        proof (cases "parse_value n r2")
          case OutOfFuel
          then show ?thesis using v [OF l2] by simp
        next
          case SyntaxError
          then show ?thesis using s0 k s1 by simp
        next
          case (Parsed x r3)
          show ?thesis
          proof (cases "skip_ws r3")
            case Nil
            then show ?thesis using s0 k s1 Parsed by simp
          next
            case s2: (Cons c' r4)
            have "2 * length r4 + 2 \<le> n"
              using l2 parse_value_shorter [OF Parsed] skip_ws_Cons [OF s2] by linarith
            then show ?thesis
              using s0 k s1 Parsed s2 m [of r4 "(k, x) # acc"] by simp
          qed
        qed
      qed
    qed
  qed
  from V E M show ?case
    by blast
qed

lemma parse_text_fuel: "parse_text s \<noteq> OutOfFuel"
proof -
  have "2 * length s + 1 \<le> Suc (Suc (length s + length s))"
    by simp
  then have "parse_value (Suc (Suc (length s + length s))) s \<noteq> OutOfFuel"
    using enough_fuel [of "Suc (Suc (length s + length s))"] by blast
  then show ?thesis
    by (simp add: parse_text_def split: parsed.splits)
qed

lemma JSON_parse_None: "JSON_parse s = None \<longleftrightarrow> parse_text s = SyntaxError"
  using parse_text_fuel [of s] by (cases "parse_text s") (simp_all add: JSON_parse_def)

section \<open>Properties of the decoder\<close>

text \<open>ASCII bytes decode to themselves and leave no sequence open.\<close>

lemma utf8_bytes_ascii:
  "bytes_needed d = 0 \<Longrightarrow> list_all (\<lambda>b. b \<le> 127) bs \<Longrightarrow> utf8_bytes d bs = (d, bs)"
  by (induction bs) (simp_all add: utf8_byte_def utf8_lead_def)

lemma utf16_ascii: "list_all (\<lambda>b. b \<le> 127) cs \<Longrightarrow> concat (map utf16 cs) = cs"
  by (induction cs) (simp_all add: utf16_def)

lemma Buffer_toString_ascii: "list_all (\<lambda>b. b \<le> 127) bs \<Longrightarrow> Buffer_toString bs = bs"
  by (simp add: Buffer_toString_def utf8_bytes_ascii utf8_init_def utf16_ascii)

lemma bom_seen_update: "bom_seen d \<Longrightarrow> d\<lparr>bom_seen := True\<rparr> = d"
  by (cases d) simp

lemma decode_ascii:
  assumes "bytes_needed d = 0" and "list_all (\<lambda>b. b \<le> 127) bs" and "bs \<noteq> []"
  shows "decode d bs = (d\<lparr>bom_seen := True\<rparr>, bs)"
proof -
  obtain c cs where bs: "bs = c # cs"
    using assms(3) by (cases bs) auto
  have c: "c \<noteq> 65279"
    using assms(2) bs by auto
  have "strip_bom d bs = (d\<lparr>bom_seen := True\<rparr>, bs)"
    using c by (simp add: strip_bom_def bs bom_seen_update)
  then show ?thesis
    by (simp add: decode_def utf8_bytes_ascii [OF assms(1,2)] utf16_ascii [OF assms(2)])
qed

text \<open>
  A character whose bytes arrive in two chunks is completed by the second call: the two
  bytes of U+00E9, and the four bytes of U+1F33F, which becomes a surrogate pair.
\<close>

lemma decode_split_character:
  "snd (decode utf8_init [195]) = []"
  "snd (decode (fst (decode utf8_init [195])) [169]) = [233]"
  "snd (decode (fst (decode utf8_init [240, 159])) [140, 191]) = [55356, 57151]"
  by (simp_all add: decode_def utf8_byte_def utf8_lead_def utf8_init_def utf8_reset_def
      strip_bom_def utf16_def)

section \<open>Properties of the relay\<close>

lemma written_map_Write: "written (map Write cs @ [EndResponse]) = cs"
  by (induction cs) simp_all

lemma map_on_event_events:
  "map on_event (events_of (chunks, e))
     = map Write (filter (\<lambda>chunk. chunk \<noteq> []) chunks) @ [EndResponse]"
  by (cases e) (simp_all add: events_of_def comp_def)

lemma concat_filter_not_empty: "concat (filter (\<lambda>chunk. chunk \<noteq> []) chunks) = concat chunks"
  by (induction chunks) simp_all

lemma caught_simps:
  "actions (caught cs) = [StatusJson 500 (ascii ''Something went wrong. Please try again.'')]"
  "upstream_calls (caught cs) = cs"
  by (simp_all add: caught_def)

lemma handler_streams:
  assumes "req_method req = ascii ''POST''"
    and "apiKey = Some key" and "key \<noteq> []"
    and "bufferRequest req = Some rawBody"
    and "parse rawBody = Some requestBody"
    and "get_prop requestBody (ascii ''messages'') = Some (JArray msgs)"
    and "ok status"
  shows "handler parse apiKey req (Responded status (Some stream)) =
      \<lparr>actions = WriteHead 200 sse_headers # map on_event (events_of stream),
       upstream_calls = [\<lparr>url = ascii ''https://api.openai.com/v1/chat/completions'',
               authorization = ascii ''Bearer '' @ key,
               call_body = completion_request (JArray msgs)\<rparr>]\<rparr>"
proof -
  have nn: "requestBody \<noteq> JNull"
    using assms(6) by (auto simp: get_prop_def)
  show ?thesis
    using assms nn by (cases requestBody) (simp_all add: handler_def isArray_def Let_def)
qed

text \<open>
  C1. A POST request whose body decodes to a value with an array \<open>messages\<close>, with the
  key configured (without it no upstream call is made), and an upstream response with an
  ok status and a body: the relay answers 200 and then writes the chunks of the upstream
  body that hold bytes, one \<open>write\<close> per chunk in the order read, and nothing else (a
  chunk of length zero causes no write); so the bytes written are the bytes read, none
  added, dropped or moved. It ends its response at the event that ends the upstream
  stream, be it its end or its failure. It has issued one upstream call, carrying the
  array.
\<close>

theorem relay_forwards:
  assumes "req_method req = ascii ''POST''"
    and "apiKey = Some key" and "key \<noteq> []"
    and "bufferRequest req = Some rawBody"
    and "parse rawBody = Some requestBody"
    and "get_prop requestBody (ascii ''messages'') = Some (JArray msgs)"
    and "ok status"
  shows "actions (handler parse apiKey req (Responded status (Some (chunks, e))))
           = WriteHead 200 sse_headers
             # map Write (filter (\<lambda>chunk. chunk \<noteq> []) chunks) @ [EndResponse]
       \<and> tl (actions (handler parse apiKey req (Responded status (Some (chunks, e)))))
           = map on_event (events_of (chunks, e))
       \<and> status_of (actions (handler parse apiKey req (Responded status (Some (chunks, e)))))
           = Some 200
       \<and> written (actions (handler parse apiKey req (Responded status (Some (chunks, e)))))
           = filter (\<lambda>chunk. chunk \<noteq> []) chunks
       \<and> concat (written (actions
             (handler parse apiKey req (Responded status (Some (chunks, e))))))
           = concat chunks
       \<and> upstream_calls (handler parse apiKey req (Responded status (Some (chunks, e))))
           = [\<lparr>url = ascii ''https://api.openai.com/v1/chat/completions'',
               authorization = ascii ''Bearer '' @ key,
               call_body = completion_request (JArray msgs)\<rparr>]"
  by (simp add: handler_streams [where parse = parse, OF assms] map_on_event_events
      written_map_Write concat_filter_not_empty)

lemma example_request_body:
  \<open>bufferRequest example_request
     = Some (ascii ''{"messages":[{"role":"user","content":"Hi"}]}'')\<close>
proof -
  have c: \<open>concat [ascii ''{"messages":[{"role":"user",'', ascii ''"content":"Hi"}]}'']
      = ascii ''{"messages":[{"role":"user","content":"Hi"}]}''\<close>
    by code_simp
  have a: \<open>list_all (\<lambda>b. b \<le> 127) (ascii ''{"messages":[{"role":"user","content":"Hi"}]}'')\<close>
    by code_simp
  show ?thesis
    unfolding bufferRequest_def example_request_def
    by (simp only: request.simps prod.case ending.case c Buffer_toString_ascii [OF a])
qed

lemma example_request_parse:
  \<open>JSON_parse (ascii ''{"messages":[{"role":"user","content":"Hi"}]}'')
     = Some (JObject [(ascii ''messages'', example_messages)])\<close>
  by code_simp

lemma example_request_messages:
  "get_prop (JObject [(ascii ''messages'', example_messages)]) (ascii ''messages'')
     = Some (JArray [JObject [(ascii ''role'', JString (ascii ''user'')),
                      (ascii ''content'', JString (ascii ''Hi''))]])"
  by code_simp

lemma key_present: "ascii ''sk-test'' \<noteq> []"
  by (simp add: ascii_def)

lemma ok_200: "ok 200"
  by (simp add: ok_def)

theorem relay_forwards_witness:
  "actions (handler JSON_parse (Some (ascii ''sk-test'')) example_request
      (Responded 200 (Some ([ascii ''data: a'', [], ascii ''b''], Errored))))
     = [WriteHead 200 sse_headers, Write (ascii ''data: a''), Write (ascii ''b''), EndResponse]
   \<and> written (actions (handler JSON_parse (Some (ascii ''sk-test'')) example_request
      (Responded 200 (Some ([ascii ''data: a'', [], ascii ''b''], Errored)))))
     = [ascii ''data: a'', ascii ''b'']
   \<and> concat (written (actions (handler JSON_parse (Some (ascii ''sk-test'')) example_request
      (Responded 200 (Some ([ascii ''data: a'', [], ascii ''b''], Errored))))))
     = ascii ''data: ab''
   \<and> length (upstream_calls (handler JSON_parse (Some (ascii ''sk-test'')) example_request
      (Responded 200 (Some ([ascii ''data: a'', [], ascii ''b''], Errored))))) = 1"
proof -
  have h1: "req_method example_request = ascii ''POST''"
    by (simp add: example_request_def)
  have n: "ascii ''data: a'' \<noteq> []" "ascii ''b'' \<noteq> []"
    by (simp_all add: ascii_def)
  have c: "ascii ''data: a'' @ ascii ''b'' = ascii ''data: ab''"
    by (simp add: ascii_def)
  show ?thesis
    using relay_forwards [where parse = JSON_parse, OF h1 refl key_present example_request_body
        example_request_parse example_request_messages ok_200,
        of "[ascii ''data: a'', [], ascii ''b'']" Errored]
    by (simp add: n c)
qed

text \<open>
  A body that is not JSON, one whose \<open>messages\<close> is not an array, and one whose
  \<open>messages\<close> is an array of values that are no messages.
\<close>

lemma not_json_request_body:
  \<open>bufferRequest not_json_request = Some (ascii ''{"messages":'')\<close>
proof -
  have a: \<open>list_all (\<lambda>b. b \<le> 127) (ascii ''{"messages":'')\<close>
    by code_simp
  show ?thesis
    unfolding bufferRequest_def not_json_request_def
    by (simp only: request.simps prod.case ending.case concat.simps append_Nil2
        Buffer_toString_ascii [OF a])
qed

lemma not_json_request_syntax: \<open>parse_text (ascii ''{"messages":'') = SyntaxError\<close>
  by code_simp

lemma not_json_request_parse: \<open>JSON_parse (ascii ''{"messages":'') = None\<close>
  by (simp add: JSON_parse_def not_json_request_syntax)

lemma no_messages_request_body:
  \<open>bufferRequest no_messages_request = Some (ascii ''{"messages":"Hi"}'')\<close>
proof -
  have a: \<open>list_all (\<lambda>b. b \<le> 127) (ascii ''{"messages":"Hi"}'')\<close>
    by code_simp
  show ?thesis
    unfolding bufferRequest_def no_messages_request_def
    by (simp only: request.simps prod.case ending.case concat.simps append_Nil2
        Buffer_toString_ascii [OF a])
qed

lemma no_messages_request_parse:
  \<open>JSON_parse (ascii ''{"messages":"Hi"}'')
     = Some (JObject [(ascii ''messages'', JString (ascii ''Hi''))])\<close>
  by code_simp

lemma no_messages_request_messages:
  "get_prop (JObject [(ascii ''messages'', JString (ascii ''Hi''))]) (ascii ''messages'')
     = Some (JString (ascii ''Hi''))"
  by code_simp

lemma bad_elements_request_body:
  \<open>bufferRequest bad_elements_request = Some (ascii ''{"messages":[1,"x"]}'')\<close>
proof -
  have a: \<open>list_all (\<lambda>b. b \<le> 127) (ascii ''{"messages":[1,"x"]}'')\<close>
    by code_simp
  show ?thesis
    unfolding bufferRequest_def bad_elements_request_def
    by (simp only: request.simps prod.case ending.case concat.simps append_Nil2
        Buffer_toString_ascii [OF a])
qed

lemma bad_elements_request_parse:
  \<open>JSON_parse (ascii ''{"messages":[1,"x"]}'')
     = Some (JObject [(ascii ''messages'', JArray [JNumber (ascii ''1''), JString (ascii ''x'')])])\<close>
  by code_simp

lemma bad_elements_request_messages:
  "get_prop (JObject [(ascii ''messages'', JArray [JNumber (ascii ''1''), JString (ascii ''x'')])])
     (ascii ''messages'') = Some (JArray [JNumber (ascii ''1''), JString (ascii ''x'')])"
  by code_simp

text \<open>
  The claim C6 as stated fails: a body that is not JSON is answered with 500, not with a
  4xx status; and an array of anything passes the check, so a body whose \<open>messages\<close>
  holds no role/content pair is sent upstream.
\<close>

theorem relay_malformed_body_counterexample:
  "status_of (actions (handler JSON_parse (Some (ascii ''sk-test'')) not_json_request Rejected))
     = Some 500
   \<and> status_of (actions (handler JSON_parse (Some (ascii ''sk-test'')) bad_elements_request
        (Responded 200 (Some ([], Ended))))) = Some 200
   \<and> length (upstream_calls (handler JSON_parse (Some (ascii ''sk-test'')) bad_elements_request
        (Responded 200 (Some ([], Ended))))) = 1"
proof -
  have a: "handler JSON_parse (Some (ascii ''sk-test'')) not_json_request Rejected = caught []"
    using key_present
    by (simp add: handler_def not_json_request_body not_json_request_parse)
       (simp add: not_json_request_def)
  have p: "req_method bad_elements_request = ascii ''POST''"
    by (simp add: bad_elements_request_def)
  have k: "ok 200"
    by (simp add: ok_def)
  note b = handler_streams [where parse = JSON_parse, OF p refl key_present
      bad_elements_request_body bad_elements_request_parse bad_elements_request_messages k,
      of "([], Ended)"]
  show ?thesis
    by (simp add: a b caught_simps)
qed

lemma handler_bad_body:
  assumes "req_method req = ascii ''POST''"
    and "apiKey = Some key" and "key \<noteq> []"
    and "\<not> (\<exists>raw v ms. bufferRequest req = Some raw \<and> parse raw = Some v
              \<and> get_prop v (ascii ''messages'') = Some (JArray ms))"
  shows "upstream_calls (handler parse apiKey req upstream) = []
       \<and> actions (handler parse apiKey req upstream) =
           (if \<exists>raw v. bufferRequest req = Some raw \<and> parse raw = Some v \<and> v \<noteq> JNull
            then [StatusJson 400 (ascii ''Invalid request payload.'')]
            else [StatusJson 500 (ascii ''Something went wrong. Please try again.'')])"
proof (cases "bufferRequest req")
  case None
  then show ?thesis
    using assms(1-3) by (simp add: handler_def caught_simps)
next
  case (Some raw)
  show ?thesis
  proof (cases "parse raw")
    case None
    then show ?thesis
      using assms(1-3) Some by (simp add: handler_def caught_simps)
  next
    case (Some v)
    note pv = this
    show ?thesis
    proof (cases "v = JNull")
      case True
      then show ?thesis
        using assms(1-3) \<open>bufferRequest req = Some raw\<close> pv
        by (simp add: handler_def caught_simps)
    next
      case False
      have "\<not> isArray (get_prop v (ascii ''messages''))"
        using assms(4) \<open>bufferRequest req = Some raw\<close> pv
        by (auto simp: isArray_def split: option.splits json.splits)
      then show ?thesis
        using assms(1-3) \<open>bufferRequest req = Some raw\<close> pv False
        by (cases v) (simp_all add: handler_def)
    qed
  qed
qed

text \<open>
  C6, amended. A POST request, with the key configured, whose body does not decode to a
  value with an array \<open>messages\<close>: the relay issues no upstream call and writes no
  stream, and when the body is JSON other than \<open>null\<close> it answers 400 with
  \<open>Invalid request payload.\<close>
\<close>

theorem relay_rejects_bad_body:
  assumes "req_method req = ascii ''POST''"
    and "apiKey = Some key" and "key \<noteq> []"
    and "\<not> (\<exists>raw v ms. bufferRequest req = Some raw \<and> parse raw = Some v
              \<and> get_prop v (ascii ''messages'') = Some (JArray ms))"
  shows "upstream_calls (handler parse apiKey req upstream) = []
       \<and> written (actions (handler parse apiKey req upstream)) = []
       \<and> ((\<exists>raw v. bufferRequest req = Some raw \<and> parse raw = Some v \<and> v \<noteq> JNull) \<longrightarrow>
            actions (handler parse apiKey req upstream)
              = [StatusJson 400 (ascii ''Invalid request payload.'')]
            \<and> status_of (actions (handler parse apiKey req upstream)) = Some 400)"
  using handler_bad_body [where parse = parse, OF assms, of upstream]
  by (simp split: if_splits)

theorem relay_rejects_bad_body_witness:
  "upstream_calls (handler JSON_parse (Some (ascii ''sk-test'')) not_json_request
      (Responded 200 (Some ([], Ended)))) = []
   \<and> upstream_calls (handler JSON_parse (Some (ascii ''sk-test'')) no_messages_request
      (Responded 200 (Some ([], Ended)))) = []
   \<and> actions (handler JSON_parse (Some (ascii ''sk-test'')) no_messages_request
      (Responded 200 (Some ([], Ended))))
       = [StatusJson 400 (ascii ''Invalid request payload.'')]"
proof -
  have p1: "req_method not_json_request = ascii ''POST''"
    by (simp add: not_json_request_def)
  have p2: "req_method no_messages_request = ascii ''POST''"
    by (simp add: no_messages_request_def)
  have n1: "\<not> (\<exists>raw v ms. bufferRequest not_json_request = Some raw \<and> JSON_parse raw = Some v
              \<and> get_prop v (ascii ''messages'') = Some (JArray ms))"
    by (simp add: not_json_request_body not_json_request_parse)
  have n2: "\<not> (\<exists>raw v ms. bufferRequest no_messages_request = Some raw \<and> JSON_parse raw = Some v
              \<and> get_prop v (ascii ''messages'') = Some (JArray ms))"
    by (simp add: no_messages_request_body no_messages_request_parse
        no_messages_request_messages)
  have e2: "\<exists>raw v. bufferRequest no_messages_request = Some raw \<and> JSON_parse raw = Some v
              \<and> v \<noteq> JNull"
    by (simp add: no_messages_request_body no_messages_request_parse)
  show ?thesis
    using relay_rejects_bad_body [where parse = JSON_parse, OF p1 refl key_present n1,
        of "Responded 200 (Some ([], Ended))"]
      relay_rejects_bad_body [where parse = JSON_parse, OF p2 refl key_present n2,
        of "Responded 200 (Some ([], Ended))"] e2
    by blast
qed

text \<open>
  The claim C7 as stated fails: without the key the relay answers 500, not 503, and its
  message names the missing configuration; it is not the generic message of the
  \<open>catch\<close> block.
\<close>

theorem relay_missing_key_counterexample:
  "status_of (actions (handler JSON_parse None example_request Rejected)) = Some 500
   \<and> status_of (actions (handler JSON_parse None example_request Rejected)) \<noteq> Some 503
   \<and> error_message (actions (handler JSON_parse None example_request Rejected))
       = Some (ascii ''OpenAI API key is not configured.'')
   \<and> error_message (actions (handler JSON_parse None example_request Rejected))
       \<noteq> error_message (actions (caught []))"
proof -
  have h: "handler JSON_parse None example_request Rejected =
      \<lparr>actions = [StatusJson 500 (ascii ''OpenAI API key is not configured.'')],
       upstream_calls = []\<rparr>"
    by (simp add: handler_def) (simp add: example_request_def)
  have d: "ascii ''OpenAI API key is not configured.''
      \<noteq> ascii ''Something went wrong. Please try again.''"
    by code_simp
  show ?thesis
    by (simp add: h caught_simps d)
qed

text \<open>
  C7, amended. A POST request arriving when \<open>OPENAI_API_KEY\<close> is absent or empty: the
  relay issues no upstream call and answers with status 500 and the message
  \<open>OpenAI API key is not configured.\<close>
\<close>

theorem relay_missing_key:
  assumes "req_method req = ascii ''POST''"
    and "apiKey = None \<or> apiKey = Some []"
  shows "handler parse apiKey req upstream =
      \<lparr>actions = [StatusJson 500 (ascii ''OpenAI API key is not configured.'')],
       upstream_calls = []\<rparr>"
  using assms by (auto simp: handler_def)

theorem relay_missing_key_witness:
  "handler JSON_parse None example_request (Responded 200 (Some ([ascii ''data: a''], Ended))) =
      \<lparr>actions = [StatusJson 500 (ascii ''OpenAI API key is not configured.'')],
       upstream_calls = []\<rparr>"
proof -
  have p: "req_method example_request = ascii ''POST''"
    by (simp add: example_request_def)
  have k: "(None :: jsstring option) = None \<or> (None :: jsstring option) = Some []"
    by simp
  show ?thesis
    by (rule relay_missing_key [OF p k])
qed

section \<open>Properties of the reading loop\<close>

subsection \<open>One line\<close>

lemma process_line_skipped:
  "data_payload l = None \<Longrightarrow> process_line parse l am st = Continue am st"
  by (simp add: process_line_def)

lemma process_line_sentinel:
  "data_payload l = Some (ascii ''[DONE]'') \<Longrightarrow>
     process_line parse l am st = Returned (st\<lparr>isStreaming := False\<rparr>)"
  by (simp add: process_line_def)

lemma process_line_malformed:
  "data_payload l = Some p \<Longrightarrow> p \<noteq> ascii ''[DONE]'' \<Longrightarrow> parse p = None \<Longrightarrow>
     process_line parse l am st = Continue am st"
  by (simp add: process_line_def)

lemma process_line_delta:
  "data_payload l = Some p \<Longrightarrow> p \<noteq> ascii ''[DONE]'' \<Longrightarrow> parse p = Some j \<Longrightarrow>
   chunk_delta j = Normal (JString d) \<Longrightarrow> d \<noteq> [] \<Longrightarrow>
     process_line parse l am st =
       Continue (am\<lparr>content := content am @ d\<rparr>)
         (st\<lparr>messages := set_last (messages st) (am\<lparr>content := content am @ d\<rparr>)\<rparr>)"
  by (simp add: process_line_def Let_def)

lemma process_line_Returned:
  "process_line parse l am st = Returned st' \<Longrightarrow>
     data_payload l = Some (ascii ''[DONE]'') \<and> st' = st\<lparr>isStreaming := False\<rparr>"
  by (auto simp: process_line_def Let_def split: option.splits if_splits completion.splits)

lemma set_last_snoc: "set_last (ms @ [a]) b = ms @ [b]"
  by (simp add: set_last_def)



subsection \<open>The lines of a chunk\<close>

lemma process_lines_append:
  "process_lines parse (pre @ post) am st =
     (case process_lines parse pre am st of
        Returned st' \<Rightarrow> Returned st'
      | Continue am' st' \<Rightarrow> process_lines parse post am' st')"
  by (induction pre arbitrary: am st) (simp_all split: loop_step.splits)

lemma process_lines_Returned:
  "process_lines parse ls am st = Returned st' \<Longrightarrow> \<not> isStreaming st'"
proof (induction ls arbitrary: am st)
  case Nil
  then show ?case by simp
next
  case (Cons l ls)
  then show ?case
    by (auto split: loop_step.splits dest: process_line_Returned)
qed


lemma process_lines_sentinel:
  assumes "data_payload l = Some (ascii ''[DONE]'')"
  shows "process_lines parse (pre @ l # post) am st =
     (case process_lines parse pre am st of
        Returned st' \<Rightarrow> Returned st'
      | Continue am' st' \<Rightarrow> Returned (st'\<lparr>isStreaming := False\<rparr>))"
  by (simp add: process_lines_append process_line_sentinel [OF assms] split: loop_step.splits)


subsection \<open>The chunks of a stream\<close>

lemma read_loop_Cons:
  "read_loop parse d (c # cs) e am st =
     (case process_lines parse (split_lines (snd (decode d c))) am st of
        Returned st' \<Rightarrow> (Done, st')
      | Continue am' st' \<Rightarrow> read_loop parse (fst (decode d c)) cs e am' st')"
  by (simp add: case_prod_beta)

lemma read_loop_not_streaming: "\<not> isStreaming (snd (read_loop parse d cs e am st))"
proof (induction cs arbitrary: d am st)
  case Nil
  then show ?case by (cases e) (simp_all add: fail_def)
next
  case (Cons c cs)
  then show ?case
    by (auto simp: read_loop_Cons simp del: read_loop.simps split: loop_step.splits
        dest: process_lines_Returned)
qed

lemma read_loop_sentinel:
  assumes "data_payload l = Some (ascii ''[DONE]'')"
    and "split_lines (snd (decode (decoder_after d cs1) c)) = pre @ l # post"
  shows "read_loop parse d (cs1 @ c # cs2) e am st = read_loop parse d (cs1 @ [c]) e' am st
       \<and> fst (read_loop parse d (cs1 @ c # cs2) e am st) = Done"
  using assms(2)
proof (induction cs1 arbitrary: d am st)
  case Nil
  then have l: "split_lines (snd (decode d c)) = pre @ l # post"
    by (simp add: decoder_after_def)
  obtain st' where "process_lines parse (pre @ l # post) am st = Returned st'"
    by (cases "process_lines parse pre am st") (simp_all add: process_lines_sentinel [OF assms(1)])
  then show ?case
    by (simp add: read_loop_Cons l del: read_loop.simps)
next
  case (Cons x cs1)
  have "split_lines (snd (decode (decoder_after (fst (decode d x)) cs1) c)) = pre @ l # post"
    using Cons.prems by (simp add: decoder_after_def)
  note ih = Cons.IH [OF this]
  have a: "read_loop parse (fst (decode d x)) (cs1 @ c # cs2) e am1 st1 =
          read_loop parse (fst (decode d x)) (cs1 @ [c]) e' am1 st1" for am1 st1
    using ih [of am1 st1] by (rule conjunct1)
  have b: "fst (read_loop parse (fst (decode d x)) (cs1 @ [c]) e' am1 st1) = Done" for am1 st1
    using ih [of am1 st1] by (elim conjE) (erule subst)
  show ?case
    by (simp add: read_loop_Cons a b del: read_loop.simps split: loop_step.splits)
qed




lemma read_loop_ascii:
  assumes "bytes_needed d = 0" and "list_all (\<lambda>b. b \<le> 127) c" and "c \<noteq> []"
  shows "read_loop parse d (c # cs) e am st =
     (case process_lines parse (split_lines c) am st of
        Returned st' \<Rightarrow> (Done, st')
      | Continue am' st' \<Rightarrow> read_loop parse (d\<lparr>bom_seen := True\<rparr>) cs e am' st')"
  by (simp add: read_loop_Cons decode_ascii [OF assms] del: read_loop.simps
      cong: loop_step.case_cong)

lemma send_ok:
  assumes "history \<noteq> []" and "ok status"
  shows "sendTextMessage parse fresh (Responded status (Some (chunks, e))) history st =
     read_loop parse utf8_init chunks e (createMessage fresh Assistant [])
       (st\<lparr>isStreaming := True, error := None,
           requests := requests st @ [systemMessages (memory st) @ history],
           messages := messages st @ [createMessage fresh Assistant []]\<rparr>)"
  using assms by (simp add: sendTextMessage_def Let_def)

lemma sendTextMessage_not_streaming:
  "\<not> isStreaming (snd (sendTextMessage parse fresh response history st))"
proof (cases response)
  case Rejected
  then show ?thesis
    by (simp add: sendTextMessage_def fail_def Let_def)
next
  case (Responded status body)
  then show ?thesis
    by (cases body)
       (simp_all add: sendTextMessage_def fail_def Let_def read_loop_not_streaming)
qed



section \<open>Evaluating the example streams\<close>

text \<open>
  The example lines, one step of the loop each: what \<open>trim\<close>, the prefix test and
  \<open>JSON.parse\<close> give for them.
\<close>

lemmas text_eval = ascii_def trim_def is_space_def startsWith_def strip_data_prefix_def
  data_payload_def Let_def

lemma split_lines_no_nl: "10 \<notin> set l \<Longrightarrow> split_lines l = [l]"
  by (induction l) simp_all

lemma split_lines_nl: "10 \<notin> set l \<Longrightarrow> split_lines (l @ 10 # rest) = l # split_lines rest"
  by (induction l) simp_all

lemma split_lines_event:
  "10 \<notin> set l \<Longrightarrow> split_lines (event l @ rest) = l # [] # split_lines rest"
  using split_lines_nl [of l "10 # rest"] split_lines_nl [of "[]" rest]
  by (simp add: event_def)

lemma split_lines_event_last: "10 \<notin> set l \<Longrightarrow> split_lines (event l) = [l, [], []]"
  using split_lines_event [of l "[]"] by simp

lemma no_nl: "10 \<notin> set line_hel" "10 \<notin> set line_lo" "10 \<notin> set line_done"
  by (simp_all add: line_hel_def line_lo_def line_done_def ascii_def)

lemma ascii_lines:
  "list_all (\<lambda>b. b \<le> 127) line_hel" "list_all (\<lambda>b. b \<le> 127) line_lo"
  "list_all (\<lambda>b. b \<le> 127) line_done"
  by (simp_all add: line_hel_def line_lo_def line_done_def ascii_def)

lemma ascii_event: "list_all (\<lambda>b. b \<le> 127) l \<Longrightarrow> list_all (\<lambda>b. b \<le> 127) (event l)"
  by (simp add: event_def)

lemma event_not_empty: "event l @ rest \<noteq> []" "event l \<noteq> []"
  by (simp_all add: event_def)

lemma init_idle: "bytes_needed utf8_init = 0" "bytes_needed (d\<lparr>bom_seen := b\<rparr>) = bytes_needed d"
  by (simp_all add: utf8_init_def)

lemma payload_hel:
  \<open>data_payload line_hel = Some (ascii ''{"choices":[{"delta":{"content":"Hel"}}]}'')\<close>
  by (simp add: line_hel_def text_eval)

lemma payload_lo:
  \<open>data_payload line_lo = Some (ascii ''{"choices":[{"delta":{"content":"lo"}}]}'')\<close>
  by (simp add: line_lo_def text_eval)

lemma payload_done: "data_payload line_done = Some (ascii ''[DONE]'')"
  by (simp add: line_done_def text_eval)

lemma payload_empty: "data_payload [] = None"
  by (simp add: text_eval)

lemma parse_hel:
  \<open>JSON_parse (ascii ''{"choices":[{"delta":{"content":"Hel"}}]}'') =
     Some (JObject [(ascii ''choices'',
        JArray [JObject [(ascii ''delta'', JObject [(ascii ''content'', JString (ascii ''Hel''))])]])])\<close>
  by code_simp

lemma parse_lo:
  \<open>JSON_parse (ascii ''{"choices":[{"delta":{"content":"lo"}}]}'') =
     Some (JObject [(ascii ''choices'',
        JArray [JObject [(ascii ''delta'', JObject [(ascii ''content'', JString (ascii ''lo''))])]])])\<close>
  by code_simp

lemma delta_of_chunk:
  "chunk_delta (JObject [(ascii ''choices'',
        JArray [JObject [(ascii ''delta'', JObject [(ascii ''content'', JString s)])]])])
     = Normal (if s = [] then JString [] else JString s)"
proof -
  have k: "ascii ''choices'' = ascii ''choices''" "ascii ''delta'' = ascii ''delta''"
    "ascii ''content'' = ascii ''content''"
    by simp_all
  show ?thesis
    by (simp add: chunk_delta_def get_prop_def index0_def opt_chain_def)
qed

lemma not_done_hel: \<open>ascii ''{"choices":[{"delta":{"content":"Hel"}}]}'' \<noteq> ascii ''[DONE]''\<close>
  by (simp add: ascii_def)

lemma not_done_lo: \<open>ascii ''{"choices":[{"delta":{"content":"lo"}}]}'' \<noteq> ascii ''[DONE]''\<close>
  by (simp add: ascii_def)

lemma step_hel:
  "process_line JSON_parse line_hel am st =
     Continue (am\<lparr>content := content am @ ascii ''Hel''\<rparr>)
       (st\<lparr>messages := set_last (messages st) (am\<lparr>content := content am @ ascii ''Hel''\<rparr>)\<rparr>)"
proof -
  have n: "ascii ''Hel'' \<noteq> []" by (simp add: ascii_def)
  show ?thesis
    by (rule process_line_delta [where parse = JSON_parse, OF payload_hel not_done_hel parse_hel _ n])
       (simp add: delta_of_chunk n)
qed

lemma step_lo:
  "process_line JSON_parse line_lo am st =
     Continue (am\<lparr>content := content am @ ascii ''lo''\<rparr>)
       (st\<lparr>messages := set_last (messages st) (am\<lparr>content := content am @ ascii ''lo''\<rparr>)\<rparr>)"
proof -
  have n: "ascii ''lo'' \<noteq> []" by (simp add: ascii_def)
  show ?thesis
    by (rule process_line_delta [where parse = JSON_parse, OF payload_lo not_done_lo parse_lo _ n])
       (simp add: delta_of_chunk n)
qed

lemma step_done: "process_line parse line_done am st = Returned (st\<lparr>isStreaming := False\<rparr>)"
  by (rule process_line_sentinel [OF payload_done])

lemma step_empty: "process_line parse [] am st = Continue am st"
  by (rule process_line_skipped [OF payload_empty])

lemmas steps = step_hel step_lo step_done step_empty

lemmas stream_eval = split_lines_event split_lines_event_last no_nl steps set_last_snoc
  ascii_lines ascii_event event_not_empty

lemma hello: "ascii ''Hel'' @ ascii ''lo'' = ascii ''Hello''"
  by (simp add: ascii_def)

lemma hello_1:
  "sendTextMessage JSON_parse fresh
      (Responded 200 (Some ([event line_hel @ event line_lo @ event line_done], e)))
      [(User, ascii ''Hi'')] st =
     (Done, st\<lparr>isStreaming := False, error := None,
              requests := requests st @ [systemMessages (memory st) @ [(User, ascii ''Hi'')]],
              messages := messages st @ [createMessage fresh Assistant (ascii ''Hello'')]\<rparr>)"
  by (simp add: send_ok ok_200 read_loop_ascii init_idle stream_eval createMessage_def hello
      del: read_loop.simps)

lemma hello_2:
  "sendTextMessage JSON_parse fresh
      (Responded 200 (Some ([event line_hel, event line_lo, event line_done], e)))
      [(User, ascii ''Hi'')] st =
     (Done, st\<lparr>isStreaming := False, error := None,
              requests := requests st @ [systemMessages (memory st) @ [(User, ascii ''Hi'')]],
              messages := messages st @ [createMessage fresh Assistant (ascii ''Hello'')]\<rparr>)"
  by (simp add: send_ok ok_200 read_loop_ascii init_idle stream_eval createMessage_def hello
      del: read_loop.simps)

lemma hello_3:
  "sendTextMessage JSON_parse fresh
      (Responded 200 (Some ([event line_hel @ event line_lo, event line_done], e)))
      [(User, ascii ''Hi'')] st =
     (Done, st\<lparr>isStreaming := False, error := None,
              requests := requests st @ [systemMessages (memory st) @ [(User, ascii ''Hi'')]],
              messages := messages st @ [createMessage fresh Assistant (ascii ''Hello'')]\<rparr>)"
  by (simp add: send_ok ok_200 read_loop_ascii init_idle stream_eval createMessage_def hello
      del: read_loop.simps)

lemma hello_4:
  "sendTextMessage JSON_parse fresh
      (Responded 200 (Some ([event line_hel, event line_lo @ event line_done], e)))
      [(User, ascii ''Hi'')] st =
     (Done, st\<lparr>isStreaming := False, error := None,
              requests := requests st @ [systemMessages (memory st) @ [(User, ascii ''Hi'')]],
              messages := messages st @ [createMessage fresh Assistant (ascii ''Hello'')]\<rparr>)"
  by (simp add: send_ok ok_200 read_loop_ascii init_idle stream_eval createMessage_def hello
      del: read_loop.simps)

section \<open>The sentinel\<close>

text \<open>
  C3. A data line whose payload is \<open>[DONE]\<close> makes the loop return with the streaming
  flag cleared: the lines after it in the chunk are not processed (the result is that of
  the lines before it), and no later chunk is read (the result does not depend on the
  chunks after it nor on how the stream ends).
\<close>

theorem sentinel_ends_turn:
  assumes "data_payload l = Some (ascii ''[DONE]'')"
    and "split_lines (snd (decode (decoder_after d cs1) c)) = pre @ l # post"
  shows "process_line parse l am st = Returned (st\<lparr>isStreaming := False\<rparr>)
     \<and> process_lines parse (ls1 @ l # ls2) am st =
         (case process_lines parse ls1 am st of
            Returned st' \<Rightarrow> Returned st'
          | Continue am' st' \<Rightarrow> Returned (st'\<lparr>isStreaming := False\<rparr>))
     \<and> read_loop parse d (cs1 @ c # cs2) e am st = read_loop parse d (cs1 @ [c]) Ended am st
     \<and> fst (read_loop parse d (cs1 @ c # cs2) e am st) = Done
     \<and> \<not> isStreaming (snd (read_loop parse d (cs1 @ c # cs2) e am st))"
  using process_line_sentinel [OF assms(1)] process_lines_sentinel [OF assms(1)]
    read_loop_sentinel [OF assms] read_loop_not_streaming
  by simp

lemma decode_after_hel:
  "decoder_after utf8_init [event line_hel] = utf8_init\<lparr>bom_seen := True\<rparr>"
  by (simp add: decoder_after_def decode_ascii init_idle ascii_lines ascii_event event_not_empty)

lemma lines_done_lo:
  "split_lines (snd (decode (decoder_after utf8_init [event line_hel])
      (event line_done @ event line_lo))) = [] @ line_done # [[], line_lo, [], []]"
  by (simp add: decode_after_hel decode_ascii init_idle stream_eval)

theorem sentinel_ends_turn_witness:
  "data_payload line_done = Some (ascii ''[DONE]'')
   \<and> read_loop JSON_parse utf8_init
        ([event line_hel] @ (event line_done @ event line_lo) # [event line_lo]) Errored
        example_assistant streaming_state
     = read_loop JSON_parse utf8_init ([event line_hel] @ [event line_done @ event line_lo]) Ended
        example_assistant streaming_state
   \<and> read_loop JSON_parse utf8_init
        ([event line_hel] @ (event line_done @ event line_lo) # [event line_lo]) Errored
        example_assistant streaming_state
     = (Done, example_state\<lparr>messages := messages example_state @
                [example_assistant\<lparr>content := ascii ''Hel''\<rparr>]\<rparr>)"
proof -
  note t = sentinel_ends_turn [where parse = JSON_parse, OF payload_done lines_done_lo,
      of example_assistant streaming_state "[]" "[]" "[event line_lo]" Errored]
  have v: "read_loop JSON_parse utf8_init ([event line_hel] @ [event line_done @ event line_lo])
        Ended example_assistant streaming_state
     = (Done, example_state\<lparr>messages := messages example_state @
                [example_assistant\<lparr>content := ascii ''Hel''\<rparr>]\<rparr>)"
    by (simp add: read_loop_ascii init_idle stream_eval streaming_state_def set_last_def
        example_assistant_def example_state_def createMessage_def del: read_loop.simps(3))
  show ?thesis
    using t v payload_done by simp
qed

section \<open>Malformed payloads\<close>

text \<open>
  C4. A data line whose payload is not the sentinel and is rejected by \<open>JSON.parse\<close>
  is skipped: the loop goes on with the assistant message and the state unchanged, the
  lines after it are processed as if it were absent, and the delta of a well-formed data
  line that follows is appended.
\<close>

theorem malformed_line_skipped:
  assumes "data_payload bad = Some p" and "p \<noteq> ascii ''[DONE]''" and "parse p = None"
    and "data_payload good = Some q" and "q \<noteq> ascii ''[DONE]''" and "parse q = Some j"
    and "chunk_delta j = Normal (JString delta)" and "delta \<noteq> []"
  shows "process_line parse bad am st = Continue am st
     \<and> process_lines parse (bad # rest) am st = process_lines parse rest am st
     \<and> process_lines parse [bad, good] am st =
         Continue (am\<lparr>content := content am @ delta\<rparr>)
           (st\<lparr>messages := set_last (messages st) (am\<lparr>content := content am @ delta\<rparr>)\<rparr>)"
  using process_line_malformed [where parse = parse, OF assms(1-3)]
    process_line_delta [where parse = parse, OF assms(4-8)]
  by simp

lemma payload_bad: \<open>data_payload line_bad = Some (ascii ''{"choices":[{"delta":'')\<close>
  by (simp add: line_bad_def text_eval)

lemma parse_bad_syntax: \<open>parse_text (ascii ''{"choices":[{"delta":'') = SyntaxError\<close>
  by code_simp

lemma parse_bad: \<open>JSON_parse (ascii ''{"choices":[{"delta":'') = None\<close>
  by (simp add: JSON_parse_def parse_bad_syntax)

lemma not_done_bad: \<open>ascii ''{"choices":[{"delta":'' \<noteq> ascii ''[DONE]''\<close>
  by (simp add: ascii_def)

theorem malformed_line_skipped_witness:
  "process_line JSON_parse line_bad example_assistant streaming_state
     = Continue example_assistant streaming_state
   \<and> process_lines JSON_parse [line_bad, line_lo] example_assistant streaming_state
     = Continue (example_assistant\<lparr>content := ascii ''lo''\<rparr>)
         (streaming_state\<lparr>messages := messages example_state @
            [example_assistant\<lparr>content := ascii ''lo''\<rparr>]\<rparr>)"
proof -
  have n: "ascii ''lo'' \<noteq> []"
    by (simp add: ascii_def)
  have d: \<open>chunk_delta (JObject [(ascii ''choices'',
        JArray [JObject [(ascii ''delta'', JObject [(ascii ''content'', JString (ascii ''lo''))])]])])
     = Normal (JString (ascii ''lo''))\<close>
    by (simp add: delta_of_chunk)
  note t = malformed_line_skipped [where parse = JSON_parse,
      OF payload_bad not_done_bad parse_bad payload_lo not_done_lo parse_lo d n,
      of example_assistant streaming_state "[]"]
  have c: "content example_assistant = []"
    by (simp add: example_assistant_def createMessage_def)
  have m: "set_last (messages streaming_state) x = messages example_state @ [x]" for x
    by (simp add: streaming_state_def set_last_snoc)
  show ?thesis
    using t by (simp add: c m del: process_lines.simps)
qed

section \<open>Two deltas and the sentinel\<close>

text \<open>
  C5. The history is one user message \<open>Hi\<close>; the stream is the events with the deltas
  \<open>Hel\<close> and \<open>lo\<close> and then the sentinel, delivered event by event, in one chunk, or
  in two chunks cut between events. The turn ends normally and the assistant message it
  appended has the content \<open>Hello\<close>.
\<close>

theorem hello_stream:
  assumes "chunks \<in> set hello_chunkings"
  shows "sendTextMessage JSON_parse fresh (Responded 200 (Some (chunks, e)))
           [(User, ascii ''Hi'')] st =
         (Done, st\<lparr>isStreaming := False, error := None,
                  requests := requests st @ [systemMessages (memory st) @ [(User, ascii ''Hi'')]],
                  messages := messages st @ [createMessage fresh Assistant (ascii ''Hello'')]\<rparr>)
       \<and> content (last (messages (snd (sendTextMessage JSON_parse fresh
           (Responded 200 (Some (chunks, e))) [(User, ascii ''Hi'')] st)))) = ascii ''Hello''"
proof -
  from assms consider
      "chunks = [event line_hel, event line_lo, event line_done]"
    | "chunks = [event line_hel @ event line_lo @ event line_done]"
    | "chunks = [event line_hel @ event line_lo, event line_done]"
    | "chunks = [event line_hel, event line_lo @ event line_done]"
    by (auto simp: hello_chunkings_def)
  then show ?thesis
  proof cases
    case 1
    then show ?thesis by (simp add: hello_2 createMessage_def)
  next
    case 2
    then show ?thesis by (simp add: hello_1 createMessage_def)
  next
    case 3
    then show ?thesis by (simp add: hello_3 createMessage_def)
  next
    case 4
    then show ?thesis by (simp add: hello_4 createMessage_def)
  qed
qed

theorem hello_stream_witness:
  "[event line_hel, event line_lo, event line_done] \<in> set hello_chunkings
   \<and> messages (snd (sendTextMessage JSON_parse (ascii ''m2'', 2)
        (Responded 200 (Some ([event line_hel, event line_lo, event line_done], Ended)))
        [(User, ascii ''Hi'')] example_state))
     = [createMessage (ascii ''m1'', 1) User (ascii ''Hi''),
        createMessage (ascii ''m2'', 2) Assistant (ascii ''Hello'')]
   \<and> content (last (messages (snd (sendTextMessage JSON_parse (ascii ''m2'', 2)
        (Responded 200 (Some ([event line_hel, event line_lo, event line_done], Ended)))
        [(User, ascii ''Hi'')] example_state)))) = ascii ''Hello''"
proof -
  have m: "[event line_hel, event line_lo, event line_done] \<in> set hello_chunkings"
    by (simp add: hello_chunkings_def)
  show ?thesis
    using hello_stream [OF m, of "(ascii ''m2'', 2)" Ended example_state] m
    by (simp add: example_state_def createMessage_def)
qed

section \<open>An event split over two chunks\<close>

text \<open>
  The lines of a chunk are read without the end of the chunk before it: the first part of
  a split event line is a data line whose payload is not JSON, the second part is no data
  line, and both are skipped.
\<close>

lemma parts_whole: "part_a @ part_b = event line_hello"
  by (simp add: part_a_def part_b_def line_hello_def event_def ascii_def)

lemma payload_part_a:
  \<open>data_payload part_a = Some (ascii ''{"choices":[{"delta":{"content":"Hel'')\<close>
  by (simp add: part_a_def text_eval)

lemma parse_part_a_syntax:
  \<open>parse_text (ascii ''{"choices":[{"delta":{"content":"Hel'') = SyntaxError\<close>
  by code_simp

lemma parse_part_a: \<open>JSON_parse (ascii ''{"choices":[{"delta":{"content":"Hel'') = None\<close>
  by (simp add: JSON_parse_def parse_part_a_syntax)

lemma not_done_part_a: \<open>ascii ''{"choices":[{"delta":{"content":"Hel'' \<noteq> ascii ''[DONE]''\<close>
  by (simp add: ascii_def)

lemma step_part_a: "process_line JSON_parse part_a am st = Continue am st"
  by (rule process_line_malformed [where parse = JSON_parse,
        OF payload_part_a not_done_part_a parse_part_a])

lemma lines_part_a: "split_lines part_a = [part_a]"
  by (rule split_lines_no_nl) (simp add: part_a_def ascii_def)

lemma lines_part_b: \<open>split_lines part_b = [ascii ''lo"}}]}'', [], []]\<close>
proof -
  have \<open>10 \<notin> set (ascii ''lo"}}]}'')\<close>
    by (simp add: ascii_def)
  from split_lines_event_last [OF this] show ?thesis
    by (simp add: part_b_def event_def)
qed

lemma step_part_b: \<open>process_line parse (ascii ''lo"}}]}'') am st = Continue am st\<close>
  by (rule process_line_skipped) (simp add: text_eval)

lemma ascii_parts: "list_all (\<lambda>b. b \<le> 127) part_a" "list_all (\<lambda>b. b \<le> 127) part_b"
  "part_a \<noteq> []" "part_b \<noteq> []"
  by (simp_all add: part_a_def part_b_def ascii_def)

lemma payload_hello:
  \<open>data_payload line_hello = Some (ascii ''{"choices":[{"delta":{"content":"Hello"}}]}'')\<close>
  by (simp add: line_hello_def text_eval)

lemma parse_hello:
  \<open>JSON_parse (ascii ''{"choices":[{"delta":{"content":"Hello"}}]}'') =
     Some (JObject [(ascii ''choices'',
        JArray [JObject [(ascii ''delta'', JObject [(ascii ''content'', JString (ascii ''Hello''))])]])])\<close>
  by code_simp

lemma step_hello:
  "process_line JSON_parse line_hello am st =
     Continue (am\<lparr>content := content am @ ascii ''Hello''\<rparr>)
       (st\<lparr>messages := set_last (messages st) (am\<lparr>content := content am @ ascii ''Hello''\<rparr>)\<rparr>)"
proof -
  have n: "ascii ''Hello'' \<noteq> []" by (simp add: ascii_def)
  have d: \<open>ascii ''{"choices":[{"delta":{"content":"Hello"}}]}'' \<noteq> ascii ''[DONE]''\<close>
    by (simp add: ascii_def)
  show ?thesis
    by (rule process_line_delta [where parse = JSON_parse, OF payload_hello d parse_hello _ n])
       (simp add: delta_of_chunk n)
qed

lemma hello_facts: "10 \<notin> set line_hello" "list_all (\<lambda>b. b \<le> 127) line_hello"
  by (simp_all add: line_hello_def ascii_def)

text \<open>
  C2 does not hold of the loop: the event line with the delta \<open>Hello\<close>, delivered in
  one chunk, gives the assistant message the content \<open>Hello\<close>; the same bytes
  delivered in two chunks, cut inside the line, leave its content empty.
\<close>

theorem split_event_loses_delta:
  "concat [part_a, part_b] = event line_hello
   \<and> sendTextMessage JSON_parse fresh (Responded 200 (Some ([event line_hello], Ended)))
        [(User, ascii ''Hi'')] st =
     (Done, st\<lparr>isStreaming := False, error := None,
              requests := requests st @ [systemMessages (memory st) @ [(User, ascii ''Hi'')]],
              messages := messages st @ [createMessage fresh Assistant (ascii ''Hello'')]\<rparr>)
   \<and> sendTextMessage JSON_parse fresh (Responded 200 (Some ([part_a, part_b], Ended)))
        [(User, ascii ''Hi'')] st =
     (Done, st\<lparr>isStreaming := False, error := None,
              requests := requests st @ [systemMessages (memory st) @ [(User, ascii ''Hi'')]],
              messages := messages st @ [createMessage fresh Assistant []]\<rparr>)"
proof -
  have a: "sendTextMessage JSON_parse fresh (Responded 200 (Some ([event line_hello], Ended)))
        [(User, ascii ''Hi'')] st =
     (Done, st\<lparr>isStreaming := False, error := None,
              requests := requests st @ [systemMessages (memory st) @ [(User, ascii ''Hi'')]],
              messages := messages st @ [createMessage fresh Assistant (ascii ''Hello'')]\<rparr>)"
    by (simp add: send_ok ok_200 read_loop_ascii init_idle stream_eval hello_facts step_hello
        createMessage_def del: read_loop.simps(3))
  have b: "sendTextMessage JSON_parse fresh (Responded 200 (Some ([part_a, part_b], Ended)))
        [(User, ascii ''Hi'')] st =
     (Done, st\<lparr>isStreaming := False, error := None,
              requests := requests st @ [systemMessages (memory st) @ [(User, ascii ''Hi'')]],
              messages := messages st @ [createMessage fresh Assistant []]\<rparr>)"
    by (simp add: send_ok ok_200 read_loop_ascii init_idle ascii_parts lines_part_a lines_part_b
        step_part_a step_part_b steps createMessage_def del: read_loop.simps(3))
  show ?thesis
    using a b parts_whole by simp
qed

section \<open>Turns\<close>

text \<open>
  C8. While \<open>isStreaming\<close> is set, \<open>sendUserPrompt\<close> returns at once: the state,
  with its message list and the list of requests sent, is unchanged; so does
  \<open>submitMessage\<close>, and the button is disabled. The flag is cleared by every end of
  \<open>sendTextMessage\<close>, which is when a prompt is accepted again.
\<close>

theorem no_turn_while_streaming:
  assumes "isStreaming st"
  shows "sendUserPrompt parse fresh_user fresh_assistant response prompt st = (NotStarted, st)
     \<and> submitMessage parse fresh_user fresh_assistant response st = (NotStarted, st)
     \<and> submit_disabled st
     \<and> \<not> isStreaming (snd (sendTextMessage parse fresh response history st))"
  using assms sendTextMessage_not_streaming [of parse fresh response history st]
  by (simp add: sendUserPrompt_def submitMessage_def submit_disabled_def)

theorem no_turn_while_streaming_witness:
  "isStreaming streaming_state
   \<and> sendUserPrompt JSON_parse (ascii ''m3'', 3) (ascii ''m4'', 4)
        (Responded 200 (Some ([event line_hel], Ended))) (ascii ''again'') streaming_state
       = (NotStarted, streaming_state)
   \<and> requests (snd (sendUserPrompt JSON_parse (ascii ''m3'', 3) (ascii ''m4'', 4)
        (Responded 200 (Some ([event line_hel], Ended))) (ascii ''again'') streaming_state)) = []"
proof -
  have s: "isStreaming streaming_state"
    by (simp add: streaming_state_def)
  have r: "requests streaming_state = []"
    by (simp add: streaming_state_def example_state_def)
  show ?thesis
    using no_turn_while_streaming [OF s, of JSON_parse "(ascii ''m3'', 3)" "(ascii ''m4'', 4)"
        "Responded 200 (Some ([event line_hel], Ended))" "ascii ''again''"]
    by (simp add: s r)
qed


lemma content_update_same: "am\<lparr>content := content am\<rparr> = am"
  by simp




lemma fail_state:
  "fail st = st\<lparr>isStreaming := False,
        error := Some (ascii ''Something went wrong, try again.''),
        messages := filter (\<lambda>msg. role msg \<noteq> Assistant \<or> content msg \<noteq> []) (messages st)\<rparr>"
  by (simp add: fail_def)

















end
